theory Spec2Isabelle
  imports Complex_Main "HOL-Library.Log_Nat"
begin

section \<open>Data model\<close>

text \<open>
  A JavaScript \<^verbatim>\<open>Date\<close> is its \<^verbatim>\<open>getTime()\<close> value: milliseconds since the epoch.
  Comparisons of dates in the source (and in Prisma filters) compare these numbers.
  Database identifiers and access tokens (generated by the database) are natural numbers.
\<close>

type_synonym date = int

datatype MeasureInstanceStatus = PENDING | SENT | STARTED | COMPLETED | EXPIRED | CANCELLED

record MeasureInstance =
  iid :: nat
  token :: nat
  patientId :: nat
  measureId :: nat
  appointmentId :: "nat option"
  dueDate :: date
  expiresAt :: date
  status :: MeasureInstanceStatus
  sentAt :: "date option"
  startedAt :: "date option"
  completedAt :: "date option"

text \<open>\<^verbatim>\<open>interface Answer { questionNum: number; value: number }\<close>, with integer values.\<close>

record Answer =
  questionNum :: int
  ans_value :: int

record SeverityBand =
  label :: string
  minScore :: int
  maxScore :: int

record ScoringResult =
  totalScore :: int
  severityBand :: string
  maxPossibleScore :: int
  answeredQuestions :: nat

record MeasureResponse =
  rid :: nat
  measureInstanceId :: nat
  answers :: "Answer list"
  r_totalScore :: int
  r_severityBand :: string

record Question =
  q_questionNum :: int
  questionText :: string
  minValue :: int
  maxValue :: int

record Measure =
  mid :: nat
  m_name :: string
  description :: string
  questions :: "Question list"

record Patient =
  pid :: nat
  firstName :: string
  email :: "string option"
  clinicianId :: nat

record Appointment =
  aid :: nat
  a_patientId :: nat
  scheduledAt :: date
  isCancelled :: bool

record MbcPolicy =
  cadenceDays :: int
  graceWindowDays :: int
  expirationDays :: int
  measuresRequired :: "string list"
  requireAtIntake :: bool

datatype AuditEventType =
    INSTANCE_CREATED | LINK_GENERATED | LINK_SENT | QUESTIONNAIRE_STARTED
  | QUESTIONNAIRE_SUBMITTED | SCORE_COMPUTED | CLINICIAN_VIEWED_CHART | PATIENT_CREATED
  | PATIENT_UPDATED | APPOINTMENT_CREATED | APPOINTMENT_CANCELLED | USER_LOGIN

datatype meta = MStr string | MInt int | MId nat | MOptId "nat option" | MDate date
  | MOptStr "string option"

record AuditContext =
  c_userId :: "nat option"
  c_patientId :: "nat option"
  resourceType :: "string option"
  resourceId :: "nat option"
  metadata :: "(string \<times> meta) list"
  ipAddress :: "string option"
  userAgent :: "string option"

type_synonym AuditEvent = "AuditEventType \<times> AuditContext"

text \<open>
  The database: one list per table, the policy row named \<^verbatim>\<open>default\<close> (if any), the
  generator of fresh identifiers, and the lines written with \<^verbatim>\<open>console.error\<close>.
\<close>

record db =
  instances :: "MeasureInstance list"
  responses :: "MeasureResponse list"
  auditEvents :: "AuditEvent list"
  measures :: "Measure list"
  patients :: "Patient list"
  appointments :: "Appointment list"
  policy :: "MbcPolicy option"
  nextId :: nat
  console :: "string list"

text \<open>What the e-mail provider answers: \<^verbatim>\<open>{ success, messageId?, error? }\<close>.\<close>

record EmailResult =
  success :: bool
  messageId :: "string option"
  send_error :: "string option"

text \<open>
  What a request meets outside the program: the clock (\<^verbatim>\<open>new Date()\<close>), which
  database writes throw, what the e-mail provider answers, and the server's time zone.
  The clock reads of one request are taken at the same instant. The time zone is given
  by its offset from UTC in milliseconds, as a function of the instant (\<^verbatim>\<open>tzOffset\<close>) and
  as a function of the local wall-clock time (\<^verbatim>\<open>tzOffsetLocal\<close>; for a wall-clock time that
  a change of offset skips or repeats, the offset the runtime chooses).
\<close>

record env =
  now :: date
  auditFault :: "AuditEvent \<Rightarrow> bool"
  responseCreateFault :: bool
  instanceUpdateFault :: bool
  emailResult :: EmailResult
  tzOffset :: "date \<Rightarrow> int"
  tzOffsetLocal :: "int \<Rightarrow> int"

datatype error = DbError | RecordNotFound | TypeError

section \<open>Scoring (scoring.ts)\<close>

datatype scoring_error =
    NoAnswersProvided
  | InvalidAnswerValue int
  | NoSeverityBand int
  | UnknownMeasure string

definition PHQ9_SEVERITY_BANDS :: "SeverityBand list" where
  "PHQ9_SEVERITY_BANDS =
    [\<lparr>label = ''minimal'', minScore = 0, maxScore = 4\<rparr>,
     \<lparr>label = ''mild'', minScore = 5, maxScore = 9\<rparr>,
     \<lparr>label = ''moderate'', minScore = 10, maxScore = 14\<rparr>,
     \<lparr>label = ''moderately_severe'', minScore = 15, maxScore = 19\<rparr>,
     \<lparr>label = ''severe'', minScore = 20, maxScore = 27\<rparr>]"

definition PHQ9_QUESTION_COUNT :: int where
  "PHQ9_QUESTION_COUNT = 9"

definition GAD7_SEVERITY_BANDS :: "SeverityBand list" where
  "GAD7_SEVERITY_BANDS =
    [\<lparr>label = ''minimal'', minScore = 0, maxScore = 4\<rparr>,
     \<lparr>label = ''mild'', minScore = 5, maxScore = 9\<rparr>,
     \<lparr>label = ''moderate'', minScore = 10, maxScore = 14\<rparr>,
     \<lparr>label = ''severe'', minScore = 15, maxScore = 21\<rparr>]"

definition GAD7_QUESTION_COUNT :: int where
  "GAD7_QUESTION_COUNT = 7"

definition getSeverityBand :: "int \<Rightarrow> SeverityBand list \<Rightarrow> scoring_error + string" where
  "getSeverityBand score bands =
    (case find (\<lambda>b. score \<ge> minScore b \<and> score \<le> maxScore b) bands of
       None \<Rightarrow> Inl (NoSeverityBand score)
     | Some band \<Rightarrow> Inr (label band))"

text \<open>The \<^verbatim>\<open>reduce\<close> of \<^verbatim>\<open>scoreAssessment\<close>: left to right, throwing at the first bad value.\<close>

fun reduceAnswers :: "int \<Rightarrow> Answer list \<Rightarrow> scoring_error + int" where
  "reduceAnswers acc [] = Inr acc"
| "reduceAnswers acc (answer # rest) =
    (if ans_value answer < 0 \<or> ans_value answer > 3
     then Inl (InvalidAnswerValue (ans_value answer))
     else reduceAnswers (acc + ans_value answer) rest)"

definition scoreAssessment ::
  "Answer list \<Rightarrow> SeverityBand list \<Rightarrow> int \<Rightarrow> scoring_error + ScoringResult" where
  "scoreAssessment as severityBands expectedQuestionCount =
    (if length as = 0 then Inl NoAnswersProvided
     else case reduceAnswers 0 as of
       Inl e \<Rightarrow> Inl e
     | Inr tot \<Rightarrow>
        (case getSeverityBand tot severityBands of
           Inl e \<Rightarrow> Inl e
         | Inr band \<Rightarrow>
            Inr \<lparr>totalScore = tot, severityBand = band,
                 maxPossibleScore = expectedQuestionCount * 3,
                 answeredQuestions = length as\<rparr>))"

definition scorePHQ9 :: "Answer list \<Rightarrow> scoring_error + ScoringResult" where
  "scorePHQ9 as = scoreAssessment as PHQ9_SEVERITY_BANDS PHQ9_QUESTION_COUNT"

definition scoreGAD7 :: "Answer list \<Rightarrow> scoring_error + ScoringResult" where
  "scoreGAD7 as = scoreAssessment as GAD7_SEVERITY_BANDS GAD7_QUESTION_COUNT"

text \<open>\<^verbatim>\<open>String.prototype.toUpperCase\<close> on ASCII letters.\<close>

definition upperChar :: "char \<Rightarrow> char" where
  "upperChar c =
    (let n = (of_char c :: nat) in if 97 \<le> n \<and> n \<le> 122 then char_of (n - 32) else c)"

definition toUpperCase :: "string \<Rightarrow> string" where
  "toUpperCase s = map upperChar s"

definition scoreMeasure :: "string \<Rightarrow> Answer list \<Rightarrow> scoring_error + ScoringResult" where
  "scoreMeasure measureName as =
    (if toUpperCase measureName = ''PHQ-9'' then scorePHQ9 as
     else if toUpperCase measureName = ''GAD-7'' then scoreGAD7 as
     else Inl (UnknownMeasure measureName))"

section \<open>Database operations (Prisma client)\<close>

definition findInstanceByToken :: "nat \<Rightarrow> db \<Rightarrow> MeasureInstance option" where
  "findInstanceByToken t s = find (\<lambda>i. token i = t) (instances s)"

definition findInstanceById :: "nat \<Rightarrow> db \<Rightarrow> MeasureInstance option" where
  "findInstanceById n s = find (\<lambda>i. iid i = n) (instances s)"

definition findMeasure :: "nat \<Rightarrow> db \<Rightarrow> Measure option" where
  "findMeasure n s = find (\<lambda>m. mid m = n) (measures s)"

definition findPatient :: "nat \<Rightarrow> db \<Rightarrow> Patient option" where
  "findPatient n s = find (\<lambda>p. pid p = n) (patients s)"

text \<open>
  \<^verbatim>\<open>measureInstance.update({ where: { id }, data })\<close>: throws when the write fails or when
  no row has the id; otherwise the row with the id is changed.
\<close>

definition updateInstance ::
  "env \<Rightarrow> nat \<Rightarrow> (MeasureInstance \<Rightarrow> MeasureInstance) \<Rightarrow> db \<Rightarrow> error + db" where
  "updateInstance e n f s =
    (if instanceUpdateFault e then Inl DbError
     else if \<not> (\<exists>x \<in> set (instances s). iid x = n) then Inl RecordNotFound
     else Inr (s\<lparr>instances := map (\<lambda>x. if iid x = n then f x else x) (instances s)\<rparr>))"

text \<open>\<^verbatim>\<open>measureInstance.updateMany({ where, data })\<close> returns the number of rows matched.\<close>

definition updateManyInstances ::
  "(MeasureInstance \<Rightarrow> bool) \<Rightarrow> (MeasureInstance \<Rightarrow> MeasureInstance) \<Rightarrow> db \<Rightarrow> nat \<times> db" where
  "updateManyInstances w f s =
    (length (filter w (instances s)),
     s\<lparr>instances := map (\<lambda>x. if w x then f x else x) (instances s)\<rparr>)"

text \<open>\<^verbatim>\<open>measureInstance.create\<close>: the database supplies the id and the token; the
  timestamps start as null.\<close>

definition createInstance ::
  "nat \<Rightarrow> nat \<Rightarrow> nat option \<Rightarrow> date \<Rightarrow> date \<Rightarrow> MeasureInstanceStatus \<Rightarrow> db
    \<Rightarrow> MeasureInstance \<times> db" where
  "createInstance p m a due expires st s =
    (let i = \<lparr>iid = nextId s, token = nextId s, patientId = p, measureId = m,
               appointmentId = a, dueDate = due, expiresAt = expires, status = st,
               sentAt = None, startedAt = None, completedAt = None\<rparr>
     in (i, s\<lparr>instances := instances s @ [i], nextId := nextId s + 1\<rparr>))"

definition createResponse ::
  "env \<Rightarrow> nat \<Rightarrow> Answer list \<Rightarrow> int \<Rightarrow> string \<Rightarrow> db \<Rightarrow> error + (db \<times> MeasureResponse)" where
  "createResponse e n as tot band s =
    (if responseCreateFault e then Inl DbError
     else let r = \<lparr>rid = nextId s, measureInstanceId = n, answers = as,
                    r_totalScore = tot, r_severityBand = band\<rparr>
          in Inr (s\<lparr>responses := responses s @ [r], nextId := nextId s + 1\<rparr>, r))"

text \<open>
  \<^verbatim>\<open>prisma.$transaction(async (tx) => ...)\<close>: the writes of the callback are committed
  when it returns, and all of them are rolled back when it throws.
\<close>

definition transaction :: "(db \<Rightarrow> error + (db \<times> 'a)) \<Rightarrow> db \<Rightarrow> (error + 'a) \<times> db" where
  "transaction body s =
    (case body s of Inl err \<Rightarrow> (Inl err, s) | Inr (s', r) \<Rightarrow> (Inr r, s'))"

definition createAuditEvent :: "env \<Rightarrow> AuditEvent \<Rightarrow> db \<Rightarrow> error + db" where
  "createAuditEvent e ev s =
    (if auditFault e ev then Inl DbError
     else Inr (s\<lparr>auditEvents := auditEvents s @ [ev]\<rparr>))"

section \<open>Audit logging (audit.ts)\<close>

text \<open>The \<^verbatim>\<open>try\<close>/\<^verbatim>\<open>catch\<close> of \<^verbatim>\<open>logAuditEvent\<close>: a failed write is reported on the
  console and the function returns normally.\<close>

definition logAuditEvent ::
  "env \<Rightarrow> AuditEventType \<Rightarrow> AuditContext \<Rightarrow> db \<Rightarrow> (error + unit) \<times> db" where
  "logAuditEvent e eventType ctx s =
    (case createAuditEvent e (eventType, ctx) s of
       Inr s' \<Rightarrow> (Inr (), s')
     | Inl err \<Rightarrow> (Inr (), s\<lparr>console := console s @ [''Failed to log audit event:'']\<rparr>))"

definition audit_instanceCreated :: "env \<Rightarrow> AuditContext \<Rightarrow> db \<Rightarrow> (error + unit) \<times> db" where
  "audit_instanceCreated e ctx s = logAuditEvent e INSTANCE_CREATED ctx s"

definition audit_linkSent :: "env \<Rightarrow> AuditContext \<Rightarrow> db \<Rightarrow> (error + unit) \<times> db" where
  "audit_linkSent e ctx s = logAuditEvent e LINK_SENT ctx s"

definition audit_questionnaireStarted ::
  "env \<Rightarrow> AuditContext \<Rightarrow> db \<Rightarrow> (error + unit) \<times> db" where
  "audit_questionnaireStarted e ctx s = logAuditEvent e QUESTIONNAIRE_STARTED ctx s"

definition audit_questionnaireSubmitted ::
  "env \<Rightarrow> AuditContext \<Rightarrow> db \<Rightarrow> (error + unit) \<times> db" where
  "audit_questionnaireSubmitted e ctx s = logAuditEvent e QUESTIONNAIRE_SUBMITTED ctx s"

definition audit_scoreComputed :: "env \<Rightarrow> AuditContext \<Rightarrow> db \<Rightarrow> (error + unit) \<times> db" where
  "audit_scoreComputed e ctx s = logAuditEvent e SCORE_COMPUTED ctx s"

section \<open>Scheduling service (scheduling.ts)\<close>

record CreateInstancesOptions =
  o_patientId :: nat
  o_appointmentId :: "nat option"
  o_dueDate :: "date option"
  o_userId :: "nat option"

definition defaultPolicy :: MbcPolicy where
  "defaultPolicy =
    \<lparr>cadenceDays = 14, graceWindowDays = 3, expirationDays = 7,
     measuresRequired = [''PHQ-9'', ''GAD-7''], requireAtIntake = True\<rparr>"

definition getDefaultPolicy :: "db \<Rightarrow> MbcPolicy \<times> db" where
  "getDefaultPolicy s =
    (case policy s of
       Some p \<Rightarrow> (p, s)
     | None \<Rightarrow> (defaultPolicy, s\<lparr>policy := Some defaultPolicy\<rparr>))"

text \<open>
  \<^verbatim>\<open>d.setDate(d.getDate() + n)\<close>, as ECMAScript defines it: the date is read on the local
  wall clock (\<^verbatim>\<open>LocalTime\<close>), the day of the month is moved by \<open>n\<close> with the time within
  the day kept (so the wall-clock time moves by \<open>n\<close> times 24 hours), and the result is
  converted back to an instant (\<^verbatim>\<open>UTC\<close>). Across a change of the zone's offset the
  instant therefore does not move by \<open>n\<close> times 86400000 milliseconds.
\<close>

definition msPerDay :: int where
  "msPerDay = 86400000"

definition LocalTime :: "env \<Rightarrow> date \<Rightarrow> int" where
  "LocalTime e t = t + tzOffset e t"

definition UTC_of :: "env \<Rightarrow> int \<Rightarrow> date" where
  "UTC_of e l = l - tzOffsetLocal e l"

definition addDays :: "env \<Rightarrow> date \<Rightarrow> int \<Rightarrow> date" where
  "addDays e d n = UTC_of e (LocalTime e d + n * msPerDay)"

text \<open>The \<^verbatim>\<open>Promise.all\<close> over \<^verbatim>\<open>measures.map(create)\<close>, in the order of the list.\<close>

fun createAll ::
  "nat \<Rightarrow> nat option \<Rightarrow> date \<Rightarrow> date \<Rightarrow> Measure list \<Rightarrow> db \<Rightarrow> MeasureInstance list \<times> db" where
  "createAll p a due expires [] s = ([], s)"
| "createAll p a due expires (m # ms) s =
    (case createInstance p (mid m) a due expires PENDING s of
       (i, s1) \<Rightarrow> (case createAll p a due expires ms s1 of (rest, s2) \<Rightarrow> (i # rest, s2)))"

text \<open>The loop writing one audit event for each created instance.\<close>

fun auditCreated ::
  "env \<Rightarrow> nat option \<Rightarrow> nat \<Rightarrow> nat option \<Rightarrow> date \<Rightarrow> MeasureInstance list \<Rightarrow> db
    \<Rightarrow> (error + unit) \<times> db" where
  "auditCreated e u p a due [] s = (Inr (), s)"
| "auditCreated e u p a due (i # rest) s =
    (case audit_instanceCreated e
        \<lparr>c_userId = u, c_patientId = Some p, resourceType = Some ''MeasureInstance'',
         resourceId = Some (iid i),
         metadata = [(''measureId'', MId (measureId i)), (''appointmentId'', MOptId a),
                     (''dueDate'', MDate due)],
         ipAddress = None, userAgent = None\<rparr> s of
       (Inl err, s1) \<Rightarrow> (Inl err, s1)
     | (Inr _, s1) \<Rightarrow> auditCreated e u p a due rest s1)"

definition createMeasureInstances ::
  "env \<Rightarrow> CreateInstancesOptions \<Rightarrow> db \<Rightarrow> (error + MeasureInstance list) \<times> db" where
  "createMeasureInstances e opts s =
    (case getDefaultPolicy s of
       (pol, s1) \<Rightarrow>
        (let ms = filter (\<lambda>m. m_name m \<in> set (measuresRequired pol)) (measures s1);
             effectiveDueDate = (case o_dueDate opts of Some d \<Rightarrow> d | None \<Rightarrow> now e);
             expires = addDays e effectiveDueDate (expirationDays pol)
         in case createAll (o_patientId opts) (o_appointmentId opts) effectiveDueDate expires
                   ms s1 of
              (created, s2) \<Rightarrow>
               (case auditCreated e (o_userId opts) (o_patientId opts) (o_appointmentId opts)
                       effectiveDueDate created s2 of
                  (Inl err, s3) \<Rightarrow> (Inl err, s3)
                | (Inr _, s3) \<Rightarrow> (Inr created, s3))))"

text \<open>The loop of \<^verbatim>\<open>generateUpcomingInstances\<close> over the appointments found.\<close>

fun generateFor ::
  "env \<Rightarrow> Appointment list \<Rightarrow> db \<Rightarrow> (error + (nat \<times> MeasureInstance list) list) \<times> db" where
  "generateFor e [] s = (Inr [], s)"
| "generateFor e (a # rest) s =
    (case createMeasureInstances e
        \<lparr>o_patientId = a_patientId a, o_appointmentId = Some (aid a),
         o_dueDate = Some (scheduledAt a), o_userId = None\<rparr> s of
       (Inl err, s1) \<Rightarrow> (Inl err, s1)
     | (Inr created, s1) \<Rightarrow>
        (case generateFor e rest s1 of
           (Inl err, s2) \<Rightarrow> (Inl err, s2)
         | (Inr results, s2) \<Rightarrow> (Inr ((aid a, created) # results), s2)))"

definition upcomingAppointments :: "env \<Rightarrow> int \<Rightarrow> db \<Rightarrow> Appointment list" where
  "upcomingAppointments e daysAhead s =
    filter (\<lambda>a. now e \<le> scheduledAt a \<and> scheduledAt a \<le> addDays e (now e) daysAhead
               \<and> \<not> isCancelled a
               \<and> \<not> (\<exists>i \<in> set (instances s). appointmentId i = Some (aid a)))
      (appointments s)"

definition generateUpcomingInstances ::
  "env \<Rightarrow> int \<Rightarrow> db \<Rightarrow> (error + (nat \<times> MeasureInstance list) list) \<times> db" where
  "generateUpcomingInstances e daysAhead s =
    generateFor e (upcomingAppointments e daysAhead s) s"

definition markExpiredInstances :: "env \<Rightarrow> db \<Rightarrow> nat \<times> db" where
  "markExpiredInstances e s =
    updateManyInstances
      (\<lambda>i. status i \<in> set [PENDING, SENT, STARTED] \<and> expiresAt i < now e)
      (\<lambda>i. i\<lparr>status := EXPIRED\<rparr>) s"

section \<open>HTTP handlers\<close>

text \<open>
  A response is its status code and its JSON body. An exception that leaves a handler
  uncaught is answered by the framework with status 500.
\<close>

datatype payload =
    ErrorMessage string
  | ScoringFailed scoring_error
  | ExceptionMessage error
  | UncaughtException error
  | Questionnaire nat string string string "Question list"
  | SubmitSuccess
  | SendSuccess "string option" nat MeasureInstanceStatus

type_synonym response = "nat \<times> payload"

subsection \<open>Questionnaire by token: GET and POST\<close>

text \<open>The block of \<^verbatim>\<open>GET\<close> that marks the first access.\<close>

definition markStarted ::
  "env \<Rightarrow> MeasureInstance \<Rightarrow> string option \<Rightarrow> string option \<Rightarrow> db \<Rightarrow> (error + unit) \<times> db" where
  "markStarted e instance ip ua s =
    (if status instance = PENDING \<or> status instance = SENT then
       (case updateInstance e (iid instance)
               (\<lambda>i. i\<lparr>status := STARTED, startedAt := Some (now e)\<rparr>) s of
          Inl err \<Rightarrow> (Inl err, s)
        | Inr s1 \<Rightarrow>
           audit_questionnaireStarted e
             \<lparr>c_userId = None, c_patientId = Some (patientId instance),
              resourceType = Some ''MeasureInstance'', resourceId = Some (iid instance),
              metadata = [], ipAddress = ip, userAgent = ua\<rparr> s1)
     else (Inr (), s))"

definition questionnaire_GET ::
  "env \<Rightarrow> nat \<Rightarrow> string option \<Rightarrow> string option \<Rightarrow> db \<Rightarrow> response \<times> db" where
  "questionnaire_GET e tok ip ua s =
    (case findInstanceByToken tok s of
       None \<Rightarrow> ((404, ErrorMessage ''Invalid or expired link''), s)
     | Some instance \<Rightarrow>
        if status instance = COMPLETED then
          ((400, ErrorMessage ''This questionnaire has already been completed''), s)
        else if status instance = EXPIRED \<or> expiresAt instance < now e then
          ((400, ErrorMessage ''This link has expired''), s)
        else
          (case markStarted e instance ip ua s of
             (Inl err, s1) \<Rightarrow> ((500, UncaughtException err), s1)
           | (Inr _, s1) \<Rightarrow>
              (case (findMeasure (measureId instance) s, findPatient (patientId instance) s) of
                 (Some m, Some p) \<Rightarrow>
                   ((200, Questionnaire (iid instance) (m_name m) (description m) (firstName p)
                            (sort_key q_questionNum (questions m))), s1)
               | _ \<Rightarrow> ((500, UncaughtException TypeError), s1))))"

text \<open>The callback passed to \<^verbatim>\<open>prisma.$transaction\<close> in \<^verbatim>\<open>POST\<close>.\<close>

definition completeInTransaction ::
  "env \<Rightarrow> MeasureInstance \<Rightarrow> Answer list \<Rightarrow> ScoringResult \<Rightarrow> db
    \<Rightarrow> error + (db \<times> MeasureResponse)" where
  "completeInTransaction e instance as scoringResult tx =
    (case createResponse e (iid instance) as (totalScore scoringResult)
            (severityBand scoringResult) tx of
       Inl err \<Rightarrow> Inl err
     | Inr (tx1, resp) \<Rightarrow>
        (case updateInstance e (iid instance)
                (\<lambda>i. i\<lparr>status := COMPLETED, completedAt := Some (now e)\<rparr>) tx1 of
           Inl err \<Rightarrow> Inl err
         | Inr tx2 \<Rightarrow> Inr (tx2, resp)))"

text \<open>The two audit writes at the end of \<^verbatim>\<open>POST\<close>.\<close>

definition auditSubmission ::
  "env \<Rightarrow> MeasureInstance \<Rightarrow> string \<Rightarrow> ScoringResult \<Rightarrow> MeasureResponse
    \<Rightarrow> string option \<Rightarrow> string option \<Rightarrow> db \<Rightarrow> (error + unit) \<times> db" where
  "auditSubmission e instance measureName scoringResult result ip ua s =
    (case audit_questionnaireSubmitted e
        \<lparr>c_userId = None, c_patientId = Some (patientId instance),
         resourceType = Some ''MeasureResponse'', resourceId = Some (rid result),
         metadata = [(''measureName'', MStr measureName),
                     (''totalScore'', MInt (totalScore scoringResult)),
                     (''severityBand'', MStr (severityBand scoringResult))],
         ipAddress = ip, userAgent = ua\<rparr> s of
       (Inl err, s1) \<Rightarrow> (Inl err, s1)
     | (Inr _, s1) \<Rightarrow>
        audit_scoreComputed e
          \<lparr>c_userId = None, c_patientId = Some (patientId instance),
           resourceType = Some ''MeasureResponse'', resourceId = Some (rid result),
           metadata = [(''totalScore'', MInt (totalScore scoringResult)),
                       (''severityBand'', MStr (severityBand scoringResult)),
                       (''maxPossibleScore'', MInt (maxPossibleScore scoringResult))],
           ipAddress = None, userAgent = None\<rparr> s1)"

text \<open>The end of \<^verbatim>\<open>POST\<close>, once the answers are scored: the transaction, the audit
  writes and the answer.\<close>

definition submitScored ::
  "env \<Rightarrow> MeasureInstance \<Rightarrow> string \<Rightarrow> Answer list \<Rightarrow> ScoringResult
    \<Rightarrow> string option \<Rightarrow> string option \<Rightarrow> db \<Rightarrow> response \<times> db" where
  "submitScored e instance measureName as scoringResult ip ua s =
    (case transaction (completeInTransaction e instance as scoringResult) s of
       (Inl err, s1) \<Rightarrow> ((500, UncaughtException err), s1)
     | (Inr result, s1) \<Rightarrow>
        (case auditSubmission e instance measureName scoringResult result ip ua s1 of
           (Inl err, s2) \<Rightarrow> ((500, UncaughtException err), s2)
         | (Inr _, s2) \<Rightarrow> ((200, SubmitSuccess), s2)))"

text \<open>
  The request body of \<^verbatim>\<open>POST\<close> is its \<^verbatim>\<open>answers\<close> member: \<open>None\<close> when it is missing
  or not an array. A measure row missing for the instance makes \<^verbatim>\<open>instance.measure.name\<close>
  throw inside the \<^verbatim>\<open>try\<close> around the scoring.
\<close>

definition questionnaire_POST ::
  "env \<Rightarrow> nat \<Rightarrow> Answer list option \<Rightarrow> string option \<Rightarrow> string option \<Rightarrow> db
    \<Rightarrow> response \<times> db" where
  "questionnaire_POST e tok body ip ua s =
    (case findInstanceByToken tok s of
       None \<Rightarrow> ((404, ErrorMessage ''Invalid or expired link''), s)
     | Some instance \<Rightarrow>
        if status instance = COMPLETED then
          ((400, ErrorMessage ''This questionnaire has already been completed''), s)
        else if expiresAt instance < now e then
          ((400, ErrorMessage ''This link has expired''), s)
        else
          (case body of
             None \<Rightarrow> ((400, ErrorMessage ''Invalid answers format''), s)
           | Some as \<Rightarrow>
              (case findMeasure (measureId instance) s of
                 None \<Rightarrow> ((400, ExceptionMessage TypeError), s)
               | Some m \<Rightarrow>
                  (case scoreMeasure (m_name m) as of
                     Inl err \<Rightarrow> ((400, ScoringFailed err), s)
                   | Inr scoringResult \<Rightarrow>
                      submitScored e instance (m_name m) as scoringResult ip ua s))))"

subsection \<open>Manual send of the access link (notifications/send/route.ts)\<close>

definition statusName :: "MeasureInstanceStatus \<Rightarrow> string" where
  "statusName st =
    (case st of PENDING \<Rightarrow> ''PENDING'' | SENT \<Rightarrow> ''SENT'' | STARTED \<Rightarrow> ''STARTED''
     | COMPLETED \<Rightarrow> ''COMPLETED'' | EXPIRED \<Rightarrow> ''EXPIRED'' | CANCELLED \<Rightarrow> ''CANCELLED'')"

text \<open>The end of the send handler, once the e-mail is sent: the update to \<open>SENT\<close>, the
  audit write and the answer.\<close>

definition markSent :: "env \<Rightarrow> nat \<Rightarrow> MeasureInstance \<Rightarrow> Patient \<Rightarrow> db \<Rightarrow> response \<times> db" where
  "markSent e n instance patient s =
    (case updateInstance e n (\<lambda>i. i\<lparr>status := SENT, sentAt := Some (now e)\<rparr>) s of
       Inl err \<Rightarrow> ((500, ErrorMessage ''Failed to send notification''), s)
     | Inr s1 \<Rightarrow>
        (case audit_linkSent e
            \<lparr>c_userId = None, c_patientId = Some (patientId instance),
             resourceType = Some ''MeasureInstance'', resourceId = Some n,
             metadata = [(''channel'', MStr ''email''),
                         (''messageId'', MOptStr (messageId (emailResult e))),
                         (''recipientEmail'', MOptStr (email patient))],
             ipAddress = None, userAgent = None\<rparr> s1 of
           (Inl err, s2) \<Rightarrow> ((500, ErrorMessage ''Failed to send notification''), s2)
         | (Inr _, s2) \<Rightarrow> ((200, SendSuccess (messageId (emailResult e)) n SENT), s2)))"

text \<open>
  The body carries \<^verbatim>\<open>instanceId\<close> (\<open>None\<close> when missing) and \<^verbatim>\<open>channel\<close>. The whole
  handler runs in a \<^verbatim>\<open>try\<close> whose \<^verbatim>\<open>catch\<close> answers 500; a patient or measure row
  missing for the instance makes the property access throw there.
\<close>

definition notifications_send_POST ::
  "env \<Rightarrow> nat option \<Rightarrow> string \<Rightarrow> db \<Rightarrow> response \<times> db" where
  "notifications_send_POST e instanceId channel s =
    (case instanceId of
       None \<Rightarrow> ((400, ErrorMessage ''instanceId is required''), s)
     | Some n \<Rightarrow>
        if channel \<noteq> ''email'' then
          ((400, ErrorMessage ''Only email channel is currently supported''), s)
        else
          (case findInstanceById n s of
             None \<Rightarrow> ((404, ErrorMessage ''Measure instance not found''), s)
           | Some instance \<Rightarrow>
              (case findPatient (patientId instance) s of
                 None \<Rightarrow> ((500, ErrorMessage ''Failed to send notification''), s)
               | Some patient \<Rightarrow>
                  if email patient = None \<or> email patient = Some [] then
                    ((400, ErrorMessage ''Patient does not have an email address''), s)
                  else if status instance = COMPLETED \<or> status instance = CANCELLED then
                    ((400, ErrorMessage (''Cannot send notification for ''
                             @ statusName (status instance) @ '' instance'')), s)
                  else if status instance = EXPIRED then
                    ((400, ErrorMessage ''Cannot send notification for expired instance''), s)
                  else if findMeasure (measureId instance) s = None then
                    ((500, ErrorMessage ''Failed to send notification''), s)
                  else if \<not> success (emailResult e) then
                    ((500, ErrorMessage (''Failed to send email: ''
                             @ (case send_error (emailResult e) of
                                  None \<Rightarrow> ''undefined'' | Some msg \<Rightarrow> msg))), s)
                  else markSent e n instance patient s)))"

subsection \<open>Compliance metrics (compliance/route.ts)\<close>

text \<open>
  JavaScript numbers are IEEE 754 doubles. A double is a rational number; an arithmetic
  operation returns the exact result rounded to the nearest double, ties to the even
  significand (\<^verbatim>\<open>roundToDouble\<close>: 53 significant bits; the exponent range is not
  modelled, the values of this route being far from overflow and underflow).
  \<^verbatim>\<open>expo x\<close> is the exponent of the leading bit of a positive \<open>x\<close>.
\<close>

definition expo :: "rat \<Rightarrow> int" where
  "expo x =
    (case quotient_of x of
       (p, q) \<Rightarrow> (let e0 = bitlen p - bitlen q in if 2 powi e0 \<le> x then e0 else e0 - 1))"

definition roundTiesToEven :: "rat \<Rightarrow> int" where
  "roundTiesToEven m =
    (let f = \<lfloor>m\<rfloor>; r = m - of_int f
     in if r < 1 / 2 then f else if 1 / 2 < r then f + 1 else if even f then f else f + 1)"

definition roundToDouble :: "rat \<Rightarrow> rat" where
  "roundToDouble x =
    (if x = 0 then 0
     else let a = \<bar>x\<bar>; u = 2 powi (expo a - 52)
          in sgn x * of_int (roundTiesToEven (a / u)) * u)"

definition js_div :: "rat \<Rightarrow> rat \<Rightarrow> rat" where
  "js_div a b = roundToDouble (a / b)"

definition js_mul :: "rat \<Rightarrow> rat \<Rightarrow> rat" where
  "js_mul a b = roundToDouble (a * b)"

text \<open>\<^verbatim>\<open>Math.round\<close> returns the nearest integer, a half towards plus infinity; its result is
  exact.\<close>

definition Math_round :: "rat \<Rightarrow> int" where
  "Math_round x = \<lfloor>x + 1 / 2\<rfloor>"


text \<open>The filter \<^verbatim>\<open>patient: clinicianId ? { clinicianId } : {}\<close>.\<close>

definition patientWhere :: "nat option \<Rightarrow> db \<Rightarrow> MeasureInstance \<Rightarrow> bool" where
  "patientWhere c s i =
    (case c of
       None \<Rightarrow> True
     | Some cid \<Rightarrow> (\<exists>p \<in> set (patients s). pid p = patientId i \<and> clinicianId p = cid))"

definition countTotalDue :: "env \<Rightarrow> nat option \<Rightarrow> int \<Rightarrow> db \<Rightarrow> nat" where
  "countTotalDue e c days s =
    length (filter (\<lambda>i. patientWhere c s i \<and> dueDate i \<ge> addDays e (now e) (- days))
              (instances s))"

definition countTotalCompleted :: "env \<Rightarrow> nat option \<Rightarrow> int \<Rightarrow> db \<Rightarrow> nat" where
  "countTotalCompleted e c days s =
    length (filter (\<lambda>i. patientWhere c s i \<and> status i = COMPLETED
                        \<and> (case completedAt i of None \<Rightarrow> False
                            | Some t \<Rightarrow> t \<ge> addDays e (now e) (- days)))
              (instances s))"

definition countTotalOverdue :: "env \<Rightarrow> nat option \<Rightarrow> db \<Rightarrow> nat" where
  "countTotalOverdue e c s =
    length (filter (\<lambda>i. patientWhere c s i \<and> status i \<in> set [PENDING, SENT, STARTED]
                        \<and> dueDate i < now e \<and> expiresAt i > now e)
              (instances s))"

text \<open>Line 50 of the route, and the rounding applied where the metrics are returned
  (\<^verbatim>\<open>Math.round(complianceRate * 10) / 10\<close>). A count is an integer below \<open>2^53\<close>, so a
  double.\<close>

definition complianceRate :: "nat \<Rightarrow> nat \<Rightarrow> rat" where
  "complianceRate totalDue totalCompleted =
    (if totalDue > 0 then js_mul (js_div (of_nat totalCompleted) (of_nat totalDue)) 100
     else 100)"

definition reportedComplianceRate :: "nat \<Rightarrow> nat \<Rightarrow> rat" where
  "reportedComplianceRate totalDue totalCompleted =
    js_div (of_int (Math_round (js_mul (complianceRate totalDue totalCompleted) 10))) 10"

text \<open>
  In the words of the specification: the instances due in the window, the window being
  from the start of the period to now.
\<close>

definition dueInWindow :: "env \<Rightarrow> nat option \<Rightarrow> int \<Rightarrow> db \<Rightarrow> nat" where
  "dueInWindow e c days s =
    length (filter (\<lambda>i. patientWhere c s i \<and> addDays e (now e) (- days) \<le> dueDate i
                        \<and> dueDate i \<le> now e)
              (instances s))"

record Metrics =
  m_totalDue :: nat
  m_totalCompleted :: nat
  m_totalOverdue :: nat
  m_complianceRate :: rat

definition compliance_GET_metrics :: "env \<Rightarrow> nat option \<Rightarrow> int \<Rightarrow> db \<Rightarrow> Metrics" where
  "compliance_GET_metrics e c days s =
    (let totalDue = countTotalDue e c days s;
         totalCompleted = countTotalCompleted e c days s;
         totalOverdue = countTotalOverdue e c s
     in \<lparr>m_totalDue = totalDue, m_totalCompleted = totalCompleted,
         m_totalOverdue = totalOverdue,
         m_complianceRate = reportedComplianceRate totalDue totalCompleted\<rparr>)"

section \<open>What a call of the generator works with\<close>

text \<open>
  Names for three values \<^verbatim>\<open>createMeasureInstances\<close> computes on its way: the policy it
  reads (the stored one, or the default it creates), the measures found for the policy's
  names, and the due date it uses.
\<close>

definition activePolicy :: "db \<Rightarrow> MbcPolicy" where
  "activePolicy s = fst (getDefaultPolicy s)"

definition requiredMeasures :: "db \<Rightarrow> Measure list" where
  "requiredMeasures s =
    filter (\<lambda>m. m_name m \<in> set (measuresRequired (activePolicy s))) (measures s)"

definition effectiveDueDate :: "env \<Rightarrow> CreateInstancesOptions \<Rightarrow> date" where
  "effectiveDueDate e opts = (case o_dueDate opts of Some d \<Rightarrow> d | None \<Rightarrow> now e)"

section \<open>Executions\<close>

text \<open>
  The operations that write instances or responses, and their sequential executions:
  each request is served to the end, in the environment it meets, before the next.
\<close>

datatype request =
    OpenLink nat "string option" "string option"
  | Submit nat "Answer list option" "string option" "string option"
  | SendLink "nat option" string
  | Sweep
  | CreateInstances CreateInstancesOptions
  | GenerateUpcoming int

fun handle :: "env \<Rightarrow> request \<Rightarrow> db \<Rightarrow> db" where
  "handle e (OpenLink tok ip ua) s = snd (questionnaire_GET e tok ip ua s)"
| "handle e (Submit tok body ip ua) s = snd (questionnaire_POST e tok body ip ua s)"
| "handle e (SendLink instanceId channel) s = snd (notifications_send_POST e instanceId channel s)"
| "handle e Sweep s = snd (markExpiredInstances e s)"
| "handle e (CreateInstances opts) s = snd (createMeasureInstances e opts s)"
| "handle e (GenerateUpcoming daysAhead) s = snd (generateUpcomingInstances e daysAhead s)"

fun run :: "(env \<times> request) list \<Rightarrow> db \<Rightarrow> db" where
  "run [] s = s"
| "run ((e, r) # rest) s = run rest (handle e r s)"

text \<open>Every response belongs to a stored instance, and every instance a response belongs
  to is \<open>COMPLETED\<close>.\<close>

definition responsesCompleted :: "db \<Rightarrow> bool" where
  "responsesCompleted s =
    (\<forall>r \<in> set (responses s).
       (\<exists>x \<in> set (instances s). iid x = measureInstanceId r)
       \<and> (\<forall>x \<in> set (instances s). iid x = measureInstanceId r \<longrightarrow> status x = COMPLETED))"

text \<open>The identifiers in use are below the next one the database will hand out.\<close>

definition idsFresh :: "db \<Rightarrow> bool" where
  "idsFresh s = (\<forall>x \<in> set (instances s). iid x < nextId s)"

definition consistent :: "db \<Rightarrow> bool" where
  "consistent s = (idsFresh s \<and> responsesCompleted s)"

section \<open>Example data\<close>

definition question :: "int \<Rightarrow> Question" where
  "question n = \<lparr>q_questionNum = n, questionText = ''Over the last 2 weeks'', minValue = 0, maxValue = 3\<rparr>"

definition phq9 :: Measure where
  "phq9 =
    \<lparr>mid = 1, m_name = ''PHQ-9'', description = ''Patient Health Questionnaire'',
     questions = map question [2, 1, 3, 4, 5, 6, 7, 8, 9]\<rparr>"

definition gad7 :: Measure where
  "gad7 =
    \<lparr>mid = 2, m_name = ''GAD-7'', description = ''Generalized Anxiety Disorder'',
     questions = map question [1, 2, 3, 4, 5, 6, 7]\<rparr>"

definition alice :: Patient where
  "alice = \<lparr>pid = 7, firstName = ''Alice'', email = Some ''alice@example.org'', clinicianId = 3\<rparr>"

text \<open>An instance of PHQ-9 for Alice, due at time 0, with the given id, status and expiry.\<close>

definition inst :: "nat \<Rightarrow> MeasureInstanceStatus \<Rightarrow> date \<Rightarrow> MeasureInstance" where
  "inst n st expires =
    \<lparr>iid = n, token = n, patientId = 7, measureId = 1, appointmentId = None, dueDate = 0,
     expiresAt = expires, status = st, sentAt = None, startedAt = None, completedAt = None\<rparr>"

definition db_of :: "MeasureInstance list \<Rightarrow> db" where
  "db_of xs =
    \<lparr>instances = xs, responses = [], auditEvents = [], measures = [phq9, gad7],
     patients = [alice], appointments = [], policy = None, nextId = 100, console = []\<rparr>"

text \<open>An environment at clock time \<open>t\<close> in which every write succeeds and the server
  runs in UTC; one in which every audit write fails; and one whose zone is New York
  around 10 March 2024, when the offset changes from -5 to -4 hours at 07:00 UTC: the
  wall-clock times from 02:00 to 03:00 are skipped and read with the offset before the
  change.\<close>

definition env_at :: "date \<Rightarrow> env" where
  "env_at t =
    \<lparr>now = t, auditFault = (\<lambda>_. False), responseCreateFault = False,
     instanceUpdateFault = False,
     emailResult = \<lparr>success = True, messageId = Some ''msg-1'', send_error = None\<rparr>,
     tzOffset = (\<lambda>_. 0), tzOffsetLocal = (\<lambda>_. 0)\<rparr>"

definition env_audit_down :: "date \<Rightarrow> env" where
  "env_audit_down t = (env_at t)\<lparr>auditFault := (\<lambda>_. True)\<rparr>"


definition answer :: "int \<Rightarrow> int \<Rightarrow> Answer" where
  "answer n v = \<lparr>questionNum = n, ans_value = v\<rparr>"

text \<open>An appointment of Alice in the coming week, and the options the batch generator
  passes for it.\<close>

definition visit :: Appointment where
  "visit = \<lparr>aid = 5, a_patientId = 7, scheduledAt = 2000, isCancelled = False\<rparr>"

definition db_visit :: db where
  "db_visit = (db_of [])\<lparr>appointments := [visit]\<rparr>"

definition opts_visit :: CreateInstancesOptions where
  "opts_visit = \<lparr>o_patientId = 7, o_appointmentId = Some 5, o_dueDate = Some 2000, o_userId = None\<rparr>"

text \<open>The part of the database that is not the audit stream: everything except the audit
  table and the console.\<close>

definition primary :: "db \<Rightarrow> db" where
  "primary s = s\<lparr>auditEvents := [], console := []\<rparr>"

section \<open>Evaluation and auxiliary facts\<close>

lemmas example_defs = db_of_def inst_def env_at_def answer_def phq9_def gad7_def alice_def
  question_def

lemmas lookup_defs = findInstanceByToken_def findInstanceById_def findMeasure_def findPatient_def

lemmas scoring_defs = scoreMeasure_def scorePHQ9_def scoreGAD7_def scoreAssessment_def
  getSeverityBand_def PHQ9_SEVERITY_BANDS_def GAD7_SEVERITY_BANDS_def PHQ9_QUESTION_COUNT_def
  GAD7_QUESTION_COUNT_def toUpperCase_def upperChar_def

lemmas write_defs = transaction_def completeInTransaction_def createResponse_def
  updateInstance_def auditSubmission_def audit_questionnaireSubmitted_def
  audit_scoreComputed_def audit_questionnaireStarted_def audit_linkSent_def
  audit_instanceCreated_def logAuditEvent_def createAuditEvent_def markStarted_def
  submitScored_def markSent_def Let_def

lemmas addDays_defs = addDays_def LocalTime_def UTC_of_def msPerDay_def

lemma addDays_auditFault [simp]: "addDays (e\<lparr>auditFault := f\<rparr>) d n = addDays e d n"
  by (simp add: addDays_defs)

lemma primary_fields [simp]:
  "instances (primary s) = instances s" "responses (primary s) = responses s"
  "measures (primary s) = measures s" "patients (primary s) = patients s"
  "appointments (primary s) = appointments s" "policy (primary s) = policy s"
  "nextId (primary s) = nextId s"
  by (simp_all add: primary_def)

lemma primary_eqD:
  "primary s = primary t \<Longrightarrow> instances s = instances t \<and> responses s = responses t
    \<and> measures s = measures t \<and> patients s = patients t \<and> appointments s = appointments t
    \<and> policy s = policy t \<and> nextId s = nextId t"
  by (metis primary_fields)

lemma logAuditEvent_returns:
  "\<exists>s'. logAuditEvent e t c s = (Inr (), s') \<and> primary s' = primary s"
  by (simp add: logAuditEvent_def createAuditEvent_def primary_def)

lemma logAuditEvent_fst [simp]: "fst (logAuditEvent e t c s) = Inr ()"
  using logAuditEvent_returns[of e t c s] by auto

lemma logAuditEvent_primary [simp]: "primary (snd (logAuditEvent e t c s)) = primary s"
  using logAuditEvent_returns[of e t c s] by auto

section \<open>The expiration sweep\<close>

lemma sweep_again_none:
  "filter (\<lambda>i. status i \<in> set [PENDING, SENT, STARTED] \<and> expiresAt i < t)
     (map (\<lambda>x. if status x \<in> set [PENDING, SENT, STARTED] \<and> expiresAt x < t
                then x\<lparr>status := EXPIRED\<rparr> else x) xs) = []"
  by (induction xs) auto

lemma sweep_again_same:
  "map (\<lambda>x. if status x \<in> set [PENDING, SENT, STARTED] \<and> expiresAt x < t
                then x\<lparr>status := EXPIRED\<rparr> else x)
     (map (\<lambda>x. if status x \<in> set [PENDING, SENT, STARTED] \<and> expiresAt x < t
                then x\<lparr>status := EXPIRED\<rparr> else x) xs) =
   map (\<lambda>x. if status x \<in> set [PENDING, SENT, STARTED] \<and> expiresAt x < t
                then x\<lparr>status := EXPIRED\<rparr> else x) xs"
  by (induction xs) auto

text \<open>
  Claim C7. \<^verbatim>\<open>markExpiredInstances\<close> keeps the number and order of the rows; a row is set
  to \<open>EXPIRED\<close> (and changed in nothing else) exactly when its status is \<open>PENDING\<close>,
  \<open>SENT\<close> or \<open>STARTED\<close> and its \<open>expiresAt\<close> is before the clock; every other row and
  every other table is left as it was; the number returned is the number of rows
  changed; and a second run at the same clock time returns 0 and changes nothing.
\<close>

theorem markExpiredInstances_sweep:
  assumes "markExpiredInstances e s = (n, s')"
  shows "length (instances s') = length (instances s)
    \<and> (\<forall>k < length (instances s).
          instances s' ! k =
            (if status (instances s ! k) \<in> {PENDING, SENT, STARTED}
                \<and> expiresAt (instances s ! k) < now e
             then (instances s ! k)\<lparr>status := EXPIRED\<rparr> else instances s ! k))
    \<and> s' = s\<lparr>instances := instances s'\<rparr>
    \<and> n = length (filter (\<lambda>i. status i \<in> {PENDING, SENT, STARTED} \<and> expiresAt i < now e)
                    (instances s))
    \<and> markExpiredInstances e s' = (0, s')"
proof -
  let ?w = "\<lambda>i. status i \<in> set [PENDING, SENT, STARTED] \<and> expiresAt i < now e"
  let ?f = "\<lambda>x. if ?w x then x\<lparr>status := EXPIRED\<rparr> else x"
  from assms have n: "n = length (filter ?w (instances s))"
    and s': "s' = s\<lparr>instances := map ?f (instances s)\<rparr>"
    by (simp_all add: markExpiredInstances_def updateManyInstances_def)
  have again: "markExpiredInstances e s' = (0, s')"
    unfolding markExpiredInstances_def updateManyInstances_def
    using s' sweep_again_none[of "now e" "instances s"] sweep_again_same[of "now e" "instances s"]
    by simp
  show ?thesis using n s' again by simp
qed

theorem markExpiredInstances_sweep_witness:
  "markExpiredInstances (env_at 50)
      (db_of [inst 1 PENDING 10, inst 2 COMPLETED 10, inst 3 SENT 60, inst 4 STARTED 49])
    = (2, db_of [inst 1 EXPIRED 10, inst 2 COMPLETED 10, inst 3 SENT 60, inst 4 EXPIRED 49])
   \<and> markExpiredInstances (env_at 50)
      (db_of [inst 1 EXPIRED 10, inst 2 COMPLETED 10, inst 3 SENT 60, inst 4 EXPIRED 49])
    = (0, db_of [inst 1 EXPIRED 10, inst 2 COMPLETED 10, inst 3 SENT 60, inst 4 EXPIRED 49])"
proof -
  have h: "markExpiredInstances (env_at 50)
      (db_of [inst 1 PENDING 10, inst 2 COMPLETED 10, inst 3 SENT 60, inst 4 STARTED 49])
    = (2, db_of [inst 1 EXPIRED 10, inst 2 COMPLETED 10, inst 3 SENT 60, inst 4 EXPIRED 49])"
    by (simp add: markExpiredInstances_def updateManyInstances_def db_of_def inst_def env_at_def)
  from markExpiredInstances_sweep[OF h] show ?thesis using h by simp
qed

section \<open>Opening and submitting by token\<close>

text \<open>
  Claim C10. For an instance found by its token whose stored status is \<open>CANCELLED\<close> and
  whose \<open>expiresAt\<close> is later than the clock, \<^verbatim>\<open>GET\<close> answers 200 with the measure's name
  and description, the patient's first name and the questions in order of their number,
  and leaves the whole database as it was. For every token, \<^verbatim>\<open>GET\<close> answers 404 or
  400 exactly when the token is unknown or the instance is \<open>COMPLETED\<close>, \<open>EXPIRED\<close> or
  past its expiry.
\<close>

theorem GET_cancelled_serves_questions:
  assumes "findInstanceByToken tok s = Some i" and "status i = CANCELLED"
    and "now e < expiresAt i"
    and "findMeasure (measureId i) s = Some m" and "findPatient (patientId i) s = Some p"
  shows "questionnaire_GET e tok ip ua s =
          ((200, Questionnaire (iid i) (m_name m) (description m) (firstName p)
                   (sort_key q_questionNum (questions m))), s)
    \<and> (\<forall>t. fst (fst (questionnaire_GET e t ip ua s)) \<in> {400, 404} \<longleftrightarrow>
          (case findInstanceByToken t s of
             None \<Rightarrow> True
           | Some j \<Rightarrow> status j = COMPLETED \<or> status j = EXPIRED \<or> expiresAt j < now e))"
proof -
  have served: "questionnaire_GET e tok ip ua s =
          ((200, Questionnaire (iid i) (m_name m) (description m) (firstName p)
                   (sort_key q_questionNum (questions m))), s)"
    using assms by (simp add: questionnaire_GET_def markStarted_def)
  have rejects: "fst (fst (questionnaire_GET e t ip ua s)) \<in> {400, 404} \<longleftrightarrow>
          (case findInstanceByToken t s of
             None \<Rightarrow> True
           | Some j \<Rightarrow> status j = COMPLETED \<or> status j = EXPIRED \<or> expiresAt j < now e)" for t
    by (auto simp: questionnaire_GET_def split: option.splits prod.splits sum.splits)
  from served rejects show ?thesis by blast
qed

theorem GET_cancelled_serves_questions_witness:
  "questionnaire_GET (env_at 50) 1 None None (db_of [inst 1 CANCELLED 60]) =
     ((200, Questionnaire 1 ''PHQ-9'' ''Patient Health Questionnaire'' ''Alice''
              (map question [1, 2, 3, 4, 5, 6, 7, 8, 9])), db_of [inst 1 CANCELLED 60])"
proof -
  have 1: "findInstanceByToken 1 (db_of [inst 1 CANCELLED 60]) = Some (inst 1 CANCELLED 60)"
    by (simp add: example_defs lookup_defs)
  have 2: "status (inst 1 CANCELLED 60) = CANCELLED" by (simp add: inst_def)
  have 3: "now (env_at 50) < expiresAt (inst 1 CANCELLED 60)" by (simp add: example_defs)
  have 4: "findMeasure (measureId (inst 1 CANCELLED 60)) (db_of [inst 1 CANCELLED 60]) = Some phq9"
    by (simp add: example_defs lookup_defs)
  have 5: "findPatient (patientId (inst 1 CANCELLED 60)) (db_of [inst 1 CANCELLED 60]) = Some alice"
    by (simp add: example_defs lookup_defs)
  have 6: "sort_key q_questionNum (questions phq9) = map question [1, 2, 3, 4, 5, 6, 7, 8, 9]"
    by (simp add: phq9_def question_def)
  from GET_cancelled_serves_questions[OF 1 2 3 4 5, of None None] show ?thesis
    using 6 by (simp add: inst_def phq9_def alice_def)
qed

text \<open>
  Claim C3, as the code has it. The handlers compare \<^verbatim>\<open>expiresAt < new Date()\<close>: for an
  instance found by its token with \<open>expiresAt\<close> strictly before the clock and a stored
  status other than \<open>COMPLETED\<close> (so also when it is still \<open>PENDING\<close>, \<open>SENT\<close> or
  \<open>STARTED\<close>), both \<^verbatim>\<open>GET\<close> and \<^verbatim>\<open>POST\<close> answer 400 "This link has expired" and leave
  the database as it was.
\<close>

theorem expired_link_rejected:
  assumes "findInstanceByToken tok s = Some i" and "expiresAt i < now e"
    and "status i \<noteq> COMPLETED"
  shows "questionnaire_GET e tok ip ua s = ((400, ErrorMessage ''This link has expired''), s)
       \<and> questionnaire_POST e tok body ip ua s
           = ((400, ErrorMessage ''This link has expired''), s)"
  using assms by (simp add: questionnaire_GET_def questionnaire_POST_def)

theorem expired_link_rejected_witness:
  "questionnaire_GET (env_at 61) 1 None None (db_of [inst 1 SENT 60])
     = ((400, ErrorMessage ''This link has expired''), db_of [inst 1 SENT 60])
   \<and> questionnaire_POST (env_at 61) 1 (Some [answer 1 2]) None None (db_of [inst 1 SENT 60])
     = ((400, ErrorMessage ''This link has expired''), db_of [inst 1 SENT 60])"
proof -
  have 1: "findInstanceByToken 1 (db_of [inst 1 SENT 60]) = Some (inst 1 SENT 60)"
    by (simp add: example_defs lookup_defs)
  have 2: "expiresAt (inst 1 SENT 60) < now (env_at 61)" by (simp add: example_defs)
  have 3: "status (inst 1 SENT 60) \<noteq> COMPLETED" by (simp add: inst_def)
  from expired_link_rejected[OF 1 2 3] show ?thesis by simp
qed

text \<open>
  Claim C3 as stated fails at the boundary: with the clock equal to \<open>expiresAt\<close> (so
  \<open>now \<ge> expiresAt\<close>) a \<open>PENDING\<close> instance is opened (200, and marked \<open>STARTED\<close>) and a
  submission is accepted.
\<close>

theorem boundary_link_accepted:
  "now (env_at 60) \<ge> expiresAt (inst 1 PENDING 60)
   \<and> fst (fst (questionnaire_GET (env_at 60) 1 None None (db_of [inst 1 PENDING 60]))) = 200
   \<and> map status (instances (snd (questionnaire_GET (env_at 60) 1 None None
          (db_of [inst 1 PENDING 60])))) = [STARTED]
   \<and> fst (questionnaire_POST (env_at 60) 1 (Some [answer 1 2]) None None
          (db_of [inst 1 PENDING 60])) = (200, SubmitSuccess)"
  by (simp add: questionnaire_GET_def questionnaire_POST_def example_defs lookup_defs
        scoring_defs write_defs)

section \<open>Validation of a submission\<close>

lemma reduceAnswers_bad:
  "\<exists>a \<in> set as. ans_value a < 0 \<or> 3 < ans_value a \<Longrightarrow> \<exists>err. reduceAnswers acc as = Inl err"
  by (induction as arbitrary: acc) auto

lemma scoreAssessment_bad:
  assumes "as = [] \<or> (\<exists>a \<in> set as. ans_value a < 0 \<or> 3 < ans_value a)"
  shows "\<exists>err. scoreAssessment as bands n = Inl err"
proof (cases "as = []")
  case True
  then show ?thesis by (simp add: scoreAssessment_def)
next
  case False
  with assms have "\<exists>a \<in> set as. ans_value a < 0 \<or> 3 < ans_value a" by simp
  from reduceAnswers_bad[OF this, of 0] obtain err where "reduceAnswers 0 as = Inl err" by blast
  then show ?thesis using False by (simp add: scoreAssessment_def)
qed

lemma scoreMeasure_bad:
  "as = [] \<or> (\<exists>a \<in> set as. ans_value a < 0 \<or> 3 < ans_value a)
    \<Longrightarrow> \<exists>err. scoreMeasure name as = Inl err"
  using scoreAssessment_bad[of as]
  by (auto simp: scoreMeasure_def scorePHQ9_def scoreGAD7_def)

text \<open>
  Claim C4, as the code has it. For an instance found by its token that is not
  \<open>COMPLETED\<close> and not past its expiry, a submission whose answer list is empty or
  contains a value outside 0..3 is answered 400 with the scoring error, and the database
  is left as it was: the instance is not completed and no response is created. (The
  number of answers is not compared with the measure's number of questions.)
\<close>

theorem invalid_submission_rejected:
  assumes "findInstanceByToken tok s = Some i"
    and "status i \<noteq> COMPLETED" and "\<not> expiresAt i < now e"
    and "findMeasure (measureId i) s = Some m"
    and "as = [] \<or> (\<exists>a \<in> set as. ans_value a < 0 \<or> 3 < ans_value a)"
  shows "\<exists>err. questionnaire_POST e tok (Some as) ip ua s = ((400, ScoringFailed err), s)"
proof -
  from scoreMeasure_bad[OF assms(5)] obtain err where "scoreMeasure (m_name m) as = Inl err"
    by blast
  then show ?thesis using assms(1-4) by (simp add: questionnaire_POST_def)
qed

theorem invalid_submission_rejected_witness:
  "questionnaire_POST (env_at 50) 1 (Some [answer 1 2, answer 2 5]) None None
     (db_of [inst 1 STARTED 60])
   = ((400, ScoringFailed (InvalidAnswerValue 5)), db_of [inst 1 STARTED 60])"
proof -
  have 1: "findInstanceByToken 1 (db_of [inst 1 STARTED 60]) = Some (inst 1 STARTED 60)"
    by (simp add: example_defs lookup_defs)
  have 2: "status (inst 1 STARTED 60) \<noteq> COMPLETED" by (simp add: inst_def)
  have 3: "\<not> expiresAt (inst 1 STARTED 60) < now (env_at 50)" by (simp add: example_defs)
  have 4: "findMeasure (measureId (inst 1 STARTED 60)) (db_of [inst 1 STARTED 60]) = Some phq9"
    by (simp add: example_defs lookup_defs)
  have 5: "[answer 1 2, answer 2 5] = [] \<or>
     (\<exists>a \<in> set [answer 1 2, answer 2 5]. ans_value a < 0 \<or> 3 < ans_value a)"
    by (simp add: answer_def)
  from invalid_submission_rejected[OF 1 2 3 4 5, of None None]
  obtain err where r: "questionnaire_POST (env_at 50) 1 (Some [answer 1 2, answer 2 5]) None None
     (db_of [inst 1 STARTED 60]) = ((400, ScoringFailed err), db_of [inst 1 STARTED 60])"
    by blast
  have "scoreMeasure ''PHQ-9'' [answer 1 2, answer 2 5] = Inl (InvalidAnswerValue 5)"
    by (simp add: scoring_defs answer_def)
  then show ?thesis using r 1 2 3 4 by (simp add: questionnaire_POST_def phq9_def)
qed

text \<open>
  Claim C4 as stated fails: PHQ-9 has nine questions, and a submission of a single answer
  in range is answered 200, completes the instance and creates a response.
\<close>

theorem short_submission_accepted:
  "length [answer 1 2] \<noteq> nat PHQ9_QUESTION_COUNT
   \<and> length [answer 1 2] \<noteq> length (questions phq9)
   \<and> fst (questionnaire_POST (env_at 50) 1 (Some [answer 1 2]) None None
          (db_of [inst 1 STARTED 60])) = (200, SubmitSuccess)
   \<and> map status (instances (snd (questionnaire_POST (env_at 50) 1 (Some [answer 1 2]) None None
          (db_of [inst 1 STARTED 60])))) = [COMPLETED]
   \<and> map measureInstanceId (responses (snd (questionnaire_POST (env_at 50) 1
          (Some [answer 1 2]) None None (db_of [inst 1 STARTED 60])))) = [1]"
  by (simp add: questionnaire_POST_def example_defs lookup_defs scoring_defs write_defs)

section \<open>Terminal states\<close>

text \<open>
  Claim C1 at a cancelled instance. The stored status is \<open>CANCELLED\<close> and the link has
  not expired; \<^verbatim>\<open>POST\<close> with answers in range answers 200 and the instance becomes
  \<open>COMPLETED\<close>, with a response created: the transition out of the terminal state
  succeeds. The send handler rejects the same instance with status 400.
\<close>

theorem POST_on_cancelled_completes:
  "fst (questionnaire_POST (env_at 50) 1 (Some [answer 1 2, answer 2 3]) None None
          (db_of [inst 1 CANCELLED 60])) = (200, SubmitSuccess)
   \<and> map status (instances (snd (questionnaire_POST (env_at 50) 1
          (Some [answer 1 2, answer 2 3]) None None (db_of [inst 1 CANCELLED 60]))))
       = [COMPLETED]
   \<and> map measureInstanceId (responses (snd (questionnaire_POST (env_at 50) 1
          (Some [answer 1 2, answer 2 3]) None None (db_of [inst 1 CANCELLED 60])))) = [1]
   \<and> notifications_send_POST (env_at 50) (Some 1) ''email'' (db_of [inst 1 CANCELLED 60])
       = ((400, ErrorMessage ''Cannot send notification for CANCELLED instance''),
          db_of [inst 1 CANCELLED 60])"
  by (simp add: questionnaire_POST_def notifications_send_POST_def statusName_def
        example_defs lookup_defs scoring_defs write_defs)

section \<open>Audit writes\<close>

lemma audit_returns:
  "\<exists>s'. audit_instanceCreated e c s = (Inr (), s') \<and> primary s' = primary s"
  "\<exists>s'. audit_linkSent e c s = (Inr (), s') \<and> primary s' = primary s"
  "\<exists>s'. audit_questionnaireStarted e c s = (Inr (), s') \<and> primary s' = primary s"
  "\<exists>s'. audit_questionnaireSubmitted e c s = (Inr (), s') \<and> primary s' = primary s"
  "\<exists>s'. audit_scoreComputed e c s = (Inr (), s') \<and> primary s' = primary s"
  by (simp_all add: audit_instanceCreated_def audit_linkSent_def audit_questionnaireStarted_def
        audit_questionnaireSubmitted_def audit_scoreComputed_def logAuditEvent_returns)

lemma auditSubmission_returns:
  "\<exists>s'. auditSubmission e i name sr resp ip ua s = (Inr (), s') \<and> primary s' = primary s"
proof -
  obtain s1 where 1: "audit_questionnaireSubmitted e
        \<lparr>c_userId = None, c_patientId = Some (patientId i),
         resourceType = Some ''MeasureResponse'', resourceId = Some (rid resp),
         metadata = [(''measureName'', MStr name),
                     (''totalScore'', MInt (totalScore sr)),
                     (''severityBand'', MStr (severityBand sr))],
         ipAddress = ip, userAgent = ua\<rparr> s = (Inr (), s1)" and p1: "primary s1 = primary s"
    using audit_returns(4) by blast
  obtain s2 where 2: "audit_scoreComputed e
          \<lparr>c_userId = None, c_patientId = Some (patientId i),
           resourceType = Some ''MeasureResponse'', resourceId = Some (rid resp),
           metadata = [(''totalScore'', MInt (totalScore sr)),
                       (''severityBand'', MStr (severityBand sr)),
                       (''maxPossibleScore'', MInt (maxPossibleScore sr))],
           ipAddress = None, userAgent = None\<rparr> s1 = (Inr (), s2)" and p2: "primary s2 = primary s1"
    using audit_returns(5) by blast
  show ?thesis using 1 2 p1 p2 by (simp add: auditSubmission_def)
qed

lemma auditCreated_returns:
  "\<exists>s'. auditCreated e u p a due created s = (Inr (), s') \<and> primary s' = primary s"
proof (induction created arbitrary: s)
  case Nil
  then show ?case by simp
next
  case (Cons i rest)
  obtain s1 where 1: "audit_instanceCreated e
        \<lparr>c_userId = u, c_patientId = Some p, resourceType = Some ''MeasureInstance'',
         resourceId = Some (iid i),
         metadata = [(''measureId'', MId (measureId i)), (''appointmentId'', MOptId a),
                     (''dueDate'', MDate due)],
         ipAddress = None, userAgent = None\<rparr> s = (Inr (), s1)" and p1: "primary s1 = primary s"
    using audit_returns(1) by blast
  from Cons.IH[of s1] obtain s2 where 2: "auditCreated e u p a due rest s1 = (Inr (), s2)"
    and p2: "primary s2 = primary s1" by blast
  show ?case using 1 2 p1 p2 by simp
qed

lemma audit_fst [simp]:
  "fst (audit_instanceCreated e c s) = Inr ()"
  "fst (audit_linkSent e c s) = Inr ()"
  "fst (audit_questionnaireStarted e c s) = Inr ()"
  "fst (audit_questionnaireSubmitted e c s) = Inr ()"
  "fst (audit_scoreComputed e c s) = Inr ()"
  "fst (auditSubmission e i name sr resp ip ua s) = Inr ()"
  "fst (auditCreated e u p a due created s) = Inr ()"
  using audit_returns[of e c s] auditSubmission_returns[of e i name sr resp ip ua s]
    auditCreated_returns[of e u p a due created s]
  by auto

lemma audit_primary [simp]:
  "primary (snd (audit_instanceCreated e c s)) = primary s"
  "primary (snd (audit_linkSent e c s)) = primary s"
  "primary (snd (audit_questionnaireStarted e c s)) = primary s"
  "primary (snd (audit_questionnaireSubmitted e c s)) = primary s"
  "primary (snd (audit_scoreComputed e c s)) = primary s"
  "primary (snd (auditSubmission e i name sr resp ip ua s)) = primary s"
  "primary (snd (auditCreated e u p a due created s)) = primary s"
  using audit_returns[of e c s] auditSubmission_returns[of e i name sr resp ip ua s]
    auditCreated_returns[of e u p a due created s]
  by auto

lemma fault_indep [simp]:
  "updateInstance (e\<lparr>auditFault := f\<rparr>) n g s = updateInstance e n g s"
  "createResponse (e\<lparr>auditFault := f\<rparr>) n as tot band s = createResponse e n as tot band s"
  "completeInTransaction (e\<lparr>auditFault := f\<rparr>) i as sr = completeInTransaction e i as sr"
  by (simp_all add: updateInstance_def createResponse_def completeInTransaction_def fun_eq_iff Let_def)

lemma markStarted_fault_indep [simp]:
  "fst (markStarted (e\<lparr>auditFault := f\<rparr>) i ip ua s) = fst (markStarted e i ip ua s)"
  "primary (snd (markStarted (e\<lparr>auditFault := f\<rparr>) i ip ua s)) = primary (snd (markStarted e i ip ua s))"
  by (simp_all add: markStarted_def split: sum.splits)

lemma submitScored_fault_indep [simp]:
  "fst (submitScored (e\<lparr>auditFault := f\<rparr>) i name as sr ip ua s) = fst (submitScored e i name as sr ip ua s)"
  "primary (snd (submitScored (e\<lparr>auditFault := f\<rparr>) i name as sr ip ua s))
     = primary (snd (submitScored e i name as sr ip ua s))"
  by (simp_all add: submitScored_def split_beta sum.case_eq_if)

lemma markSent_fault_indep [simp]:
  "fst (markSent (e\<lparr>auditFault := f\<rparr>) n i p s) = fst (markSent e n i p s)"
  "primary (snd (markSent (e\<lparr>auditFault := f\<rparr>) n i p s)) = primary (snd (markSent e n i p s))"
  by (simp_all add: markSent_def split_beta sum.case_eq_if)

lemma GET_fault_indep:
  "fst (questionnaire_GET (e\<lparr>auditFault := f\<rparr>) tok ip ua s) = fst (questionnaire_GET e tok ip ua s)
   \<and> primary (snd (questionnaire_GET (e\<lparr>auditFault := f\<rparr>) tok ip ua s))
      = primary (snd (questionnaire_GET e tok ip ua s))"
proof (cases "findInstanceByToken tok s")
  case None
  then show ?thesis by (simp add: questionnaire_GET_def)
next
  case (Some i)
  obtain r1 s1 where m1: "markStarted e i ip ua s = (r1, s1)" by fastforce
  obtain r2 s2 where m2: "markStarted (e\<lparr>auditFault := f\<rparr>) i ip ua s = (r2, s2)" by fastforce
  from markStarted_fault_indep[where e=e and f=f and i=i and ip=ip and ua=ua and s=s] m1 m2
  have eq: "r2 = r1" "primary s2 = primary s1"
    by simp_all
  show ?thesis using Some m1 m2 eq
    by (simp add: questionnaire_GET_def split: sum.splits option.splits)
qed

lemma POST_fault_indep:
  "fst (questionnaire_POST (e\<lparr>auditFault := f\<rparr>) tok body ip ua s) = fst (questionnaire_POST e tok body ip ua s)
   \<and> primary (snd (questionnaire_POST (e\<lparr>auditFault := f\<rparr>) tok body ip ua s))
      = primary (snd (questionnaire_POST e tok body ip ua s))"
  by (simp add: questionnaire_POST_def split: option.split sum.split)

lemma send_fault_indep:
  "fst (notifications_send_POST (e\<lparr>auditFault := f\<rparr>) n ch s) = fst (notifications_send_POST e n ch s)
   \<and> primary (snd (notifications_send_POST (e\<lparr>auditFault := f\<rparr>) n ch s))
      = primary (snd (notifications_send_POST e n ch s))"
  by (auto simp: notifications_send_POST_def split: option.split)

lemma createMeasureInstances_fault_indep:
  "fst (createMeasureInstances (e\<lparr>auditFault := f\<rparr>) opts s) = fst (createMeasureInstances e opts s)
   \<and> primary (snd (createMeasureInstances (e\<lparr>auditFault := f\<rparr>) opts s))
      = primary (snd (createMeasureInstances e opts s))"
  by (simp add: createMeasureInstances_def Let_def split_beta sum.case_eq_if split: option.split)


text \<open>
  Claim C6. \<^verbatim>\<open>logAuditEvent\<close> returns normally for every event kind, context and
  database, whether or not the write of the audit record fails, and changes nothing but
  the audit table and the console. Hence for the handlers that write audit events
  (\<^verbatim>\<open>GET\<close>, \<^verbatim>\<open>POST\<close>, the send handler and \<^verbatim>\<open>createMeasureInstances\<close>) the answer and
  every table other than the audit stream are the same under any pattern \<open>f\<close> of failing
  audit writes as under any other: the transition is neither failed nor rolled back.
\<close>

theorem audit_failure_never_propagates:
  "fst (logAuditEvent e t ctx s) = Inr ()
   \<and> primary (snd (logAuditEvent e t ctx s)) = primary s
   \<and> fst (questionnaire_GET (e\<lparr>auditFault := f\<rparr>) tok ip ua s) = fst (questionnaire_GET e tok ip ua s)
   \<and> primary (snd (questionnaire_GET (e\<lparr>auditFault := f\<rparr>) tok ip ua s))
      = primary (snd (questionnaire_GET e tok ip ua s))
   \<and> fst (questionnaire_POST (e\<lparr>auditFault := f\<rparr>) tok body ip ua s)
      = fst (questionnaire_POST e tok body ip ua s)
   \<and> primary (snd (questionnaire_POST (e\<lparr>auditFault := f\<rparr>) tok body ip ua s))
      = primary (snd (questionnaire_POST e tok body ip ua s))
   \<and> fst (notifications_send_POST (e\<lparr>auditFault := f\<rparr>) n ch s)
      = fst (notifications_send_POST e n ch s)
   \<and> primary (snd (notifications_send_POST (e\<lparr>auditFault := f\<rparr>) n ch s))
      = primary (snd (notifications_send_POST e n ch s))
   \<and> fst (createMeasureInstances (e\<lparr>auditFault := f\<rparr>) opts s)
      = fst (createMeasureInstances e opts s)
   \<and> primary (snd (createMeasureInstances (e\<lparr>auditFault := f\<rparr>) opts s))
      = primary (snd (createMeasureInstances e opts s))"
  using GET_fault_indep[where e=e and f=f and tok=tok and ip=ip and ua=ua and s=s]
    POST_fault_indep[where e=e and f=f and tok=tok and body=body and ip=ip and ua=ua and s=s]
    send_fault_indep[where e=e and f=f and n=n and ch=ch and s=s]
    createMeasureInstances_fault_indep[where e=e and f=f and opts=opts and s=s]
  by simp

theorem audit_failure_never_propagates_witness:
  "fst (questionnaire_POST (env_audit_down 50) 1 (Some [answer 1 2]) None None
          (db_of [inst 1 STARTED 60])) = (200, SubmitSuccess)
   \<and> auditEvents (snd (questionnaire_POST (env_audit_down 50) 1 (Some [answer 1 2])
          None None (db_of [inst 1 STARTED 60]))) = []
   \<and> length (auditEvents (snd (questionnaire_POST (env_at 50) 1 (Some [answer 1 2])
          None None (db_of [inst 1 STARTED 60])))) = 2"
proof -
  have ok: "fst (questionnaire_POST (env_at 50) 1 (Some [answer 1 2]) None None
          (db_of [inst 1 STARTED 60])) = (200, SubmitSuccess)"
    and two: "length (auditEvents (snd (questionnaire_POST (env_at 50) 1 (Some [answer 1 2])
          None None (db_of [inst 1 STARTED 60])))) = 2"
    by (simp_all add: questionnaire_POST_def example_defs lookup_defs scoring_defs write_defs)
  have down: "auditEvents (snd (questionnaire_POST (env_audit_down 50) 1 (Some [answer 1 2])
          None None (db_of [inst 1 STARTED 60]))) = []"
    by (simp add: questionnaire_POST_def env_audit_down_def example_defs lookup_defs
          scoring_defs write_defs)
  from audit_failure_never_propagates[where e="env_at 50" and f="\<lambda>_. True" and tok=1
      and body="Some [answer 1 2]" and ip=None and ua=None and s="db_of [inst 1 STARTED 60]"]
  have "fst (questionnaire_POST (env_audit_down 50) 1 (Some [answer 1 2]) None None
          (db_of [inst 1 STARTED 60])) = fst (questionnaire_POST (env_at 50) 1 (Some [answer 1 2]) None None
          (db_of [inst 1 STARTED 60]))"
    by (simp add: env_audit_down_def)
  then show ?thesis using ok down two by simp
qed

section \<open>Responses belong to completed instances\<close>

lemma updateInstance_Inr:
  "updateInstance e n g s = Inr s' \<Longrightarrow>
     s' = s\<lparr>instances := map (\<lambda>x. if iid x = n then g x else x) (instances s)\<rparr>
     \<and> (\<exists>x \<in> set (instances s). iid x = n)"
  by (auto simp: updateInstance_def split: if_splits)

lemma consistent_primary: "primary s' = primary s \<Longrightarrow> consistent s' = consistent s"
  using primary_eqD[of s' s] by (simp add: consistent_def idsFresh_def responsesCompleted_def)

lemma consistentI:
  assumes "\<And>y. y \<in> set (instances s) \<Longrightarrow> iid y < nextId s"
    and "\<And>r. r \<in> set (responses s) \<Longrightarrow> \<exists>x \<in> set (instances s). iid x = measureInstanceId r"
    and "\<And>r y. r \<in> set (responses s) \<Longrightarrow> y \<in> set (instances s) \<Longrightarrow> iid y = measureInstanceId r
          \<Longrightarrow> status y = COMPLETED"
  shows "consistent s"
  using assms unfolding consistent_def idsFresh_def responsesCompleted_def by blast

lemma consistentD:
  assumes "consistent s"
  shows "y \<in> set (instances s) \<Longrightarrow> iid y < nextId s"
    and "r \<in> set (responses s) \<Longrightarrow> \<exists>x \<in> set (instances s). iid x = measureInstanceId r"
    and "r \<in> set (responses s) \<Longrightarrow> y \<in> set (instances s) \<Longrightarrow> iid y = measureInstanceId r
          \<Longrightarrow> status y = COMPLETED"
  using assms unfolding consistent_def idsFresh_def responsesCompleted_def by blast+

lemma consistent_map:
  assumes c: "consistent s" and id: "\<And>x. iid (f x) = iid x"
    and keep: "\<And>x r. x \<in> set (instances s) \<Longrightarrow> r \<in> set (responses s)
                 \<Longrightarrow> measureInstanceId r = iid x \<Longrightarrow> status (f x) = COMPLETED"
  shows "consistent (s\<lparr>instances := map f (instances s)\<rparr>)"
proof (rule consistentI)
  fix y assume "y \<in> set (instances (s\<lparr>instances := map f (instances s)\<rparr>))"
  then obtain x where "x \<in> set (instances s)" "y = f x" by auto
  then show "iid y < nextId (s\<lparr>instances := map f (instances s)\<rparr>)"
    using consistentD(1)[OF c] id by simp
next
  fix r assume "r \<in> set (responses (s\<lparr>instances := map f (instances s)\<rparr>))"
  then have r: "r \<in> set (responses s)" by simp
  from consistentD(2)[OF c r] obtain x where x: "x \<in> set (instances s)" "iid x = measureInstanceId r"
    by blast
  then have "f x \<in> set (map f (instances s))" "iid (f x) = measureInstanceId r" using id by simp_all
  then show "\<exists>x \<in> set (instances (s\<lparr>instances := map f (instances s)\<rparr>)). iid x = measureInstanceId r"
    by (metis db.select_convs(1) db.surjective db.update_convs(1))
next
  fix r y assume "r \<in> set (responses (s\<lparr>instances := map f (instances s)\<rparr>))"
    and y: "y \<in> set (instances (s\<lparr>instances := map f (instances s)\<rparr>))" "iid y = measureInstanceId r"
  then have r: "r \<in> set (responses s)" by simp
  from y(1) obtain x where x: "x \<in> set (instances s)" "y = f x" by auto
  with y(2) id have "measureInstanceId r = iid x" by simp
  from keep[OF x(1) r this] x(2) show "status y = COMPLETED" by simp
qed

lemma consistent_update:
  assumes c: "consistent s" and g: "\<And>x. iid (g x) = iid x"
    and keep: "\<And>x r. x \<in> set (instances s) \<Longrightarrow> iid x = n \<Longrightarrow> r \<in> set (responses s)
                 \<Longrightarrow> measureInstanceId r = n \<Longrightarrow> status (g x) = COMPLETED"
  shows "consistent (s\<lparr>instances := map (\<lambda>x. if iid x = n then g x else x) (instances s)\<rparr>)"
proof (rule consistent_map[OF c])
  fix x show "iid (if iid x = n then g x else x) = iid x" using g by simp
next
  fix x r assume x: "x \<in> set (instances s)" and r: "r \<in> set (responses s)"
    and eq: "measureInstanceId r = iid x"
  show "status (if iid x = n then g x else x) = COMPLETED"
  proof (cases "iid x = n")
    case True
    then show ?thesis using keep[OF x True r] eq by simp
  next
    case False
    then show ?thesis using consistentD(3)[OF c r x] eq by simp
  qed
qed

lemma no_response_if_not_completed:
  "consistent s \<Longrightarrow> i \<in> set (instances s) \<Longrightarrow> status i \<noteq> COMPLETED \<Longrightarrow> r \<in> set (responses s)
     \<Longrightarrow> measureInstanceId r \<noteq> iid i"
  unfolding consistent_def responsesCompleted_def by metis

lemma consistent_update_open:
  assumes c: "consistent s" and g: "\<And>x. iid (g x) = iid x"
    and i: "i \<in> set (instances s)" "status i \<noteq> COMPLETED"
  shows "consistent (s\<lparr>instances := map (\<lambda>x. if iid x = iid i then g x else x) (instances s)\<rparr>)"
proof (rule consistent_update[OF c g])
  fix x r assume "r \<in> set (responses s)" "measureInstanceId r = iid i"
  with no_response_if_not_completed[OF c i] show "status (g x) = COMPLETED" by blast
qed

lemma find_Some_set: "find P xs = Some x \<Longrightarrow> x \<in> set xs \<and> P x"
  by (induction xs) (auto split: if_splits)

lemma found_by_token: "findInstanceByToken tok s = Some i \<Longrightarrow> i \<in> set (instances s) \<and> token i = tok"
  unfolding findInstanceByToken_def by (rule find_Some_set)

lemma found_by_id: "findInstanceById k s = Some i \<Longrightarrow> i \<in> set (instances s) \<and> iid i = k"
  unfolding findInstanceById_def by (rule find_Some_set)

lemma markStarted_consistent:
  assumes c: "consistent s" and i: "i \<in> set (instances s)"
  shows "consistent (snd (markStarted e i ip ua s))"
proof (cases "status i = PENDING \<or> status i = SENT")
  case False
  then show ?thesis using c by (simp add: markStarted_def)
next
  case True
  then have nc: "status i \<noteq> COMPLETED" by auto
  show ?thesis
  proof (cases "updateInstance e (iid i) (\<lambda>i. i\<lparr>status := STARTED, startedAt := Some (now e)\<rparr>) s")
    case (Inl err)
    then show ?thesis using True c by (simp add: markStarted_def)
  next
    case (Inr s1)
    have "consistent (s\<lparr>instances := map (\<lambda>x. if iid x = iid i
             then x\<lparr>status := STARTED, startedAt := Some (now e)\<rparr> else x) (instances s)\<rparr>)"
      by (rule consistent_update_open[OF c _ i nc]) simp
    with updateInstance_Inr[OF Inr] have "consistent s1" by simp
    then have "consistent (snd (audit_questionnaireStarted e
             \<lparr>c_userId = None, c_patientId = Some (patientId i),
              resourceType = Some ''MeasureInstance'', resourceId = Some (iid i),
              metadata = [], ipAddress = ip, userAgent = ua\<rparr> s1))"
      unfolding audit_questionnaireStarted_def using consistent_primary[OF logAuditEvent_primary]
      by simp
    then show ?thesis using True Inr by (simp add: markStarted_def)
  qed
qed


lemma audit_consistent [simp]:
  "consistent (snd (logAuditEvent e t c s)) = consistent s"
  "consistent (snd (audit_instanceCreated e c s)) = consistent s"
  "consistent (snd (audit_linkSent e c s)) = consistent s"
  "consistent (snd (audit_questionnaireStarted e c s)) = consistent s"
  "consistent (snd (auditSubmission e i name sr resp ip ua s)) = consistent s"
  "consistent (snd (auditCreated e u p a due created s)) = consistent s"
  by (rule consistent_primary, simp)+

lemma GET_consistent:
  assumes c: "consistent s"
  shows "consistent (snd (questionnaire_GET e tok ip ua s))"
proof (cases "findInstanceByToken tok s")
  case None
  then show ?thesis using c by (simp add: questionnaire_GET_def)
next
  case (Some i)
  obtain r1 s1 where m: "markStarted e i ip ua s = (r1, s1)" by fastforce
  from markStarted_consistent[OF c, of i e ip ua] found_by_token[OF Some] m
  have "consistent s1" by simp
  then show ?thesis using Some c m
    by (simp add: questionnaire_GET_def split: sum.split option.split)
qed

lemma markSent_consistent:
  assumes c: "consistent s" and i: "i \<in> set (instances s)" and nc: "status i \<noteq> COMPLETED"
  shows "consistent (snd (markSent e (iid i) i p s))"
proof (cases "updateInstance e (iid i) (\<lambda>i. i\<lparr>status := SENT, sentAt := Some (now e)\<rparr>) s")
  case (Inl err)
  then show ?thesis using c by (simp add: markSent_def)
next
  case (Inr s1)
  have "consistent (s\<lparr>instances := map (\<lambda>x. if iid x = iid i
             then x\<lparr>status := SENT, sentAt := Some (now e)\<rparr> else x) (instances s)\<rparr>)"
    by (rule consistent_update_open[OF c _ i nc]) simp
  with updateInstance_Inr[OF Inr] have "consistent s1" by simp
  then show ?thesis using Inr
    by (simp add: markSent_def split_beta sum.case_eq_if)
qed

lemma send_consistent:
  assumes c: "consistent s"
  shows "consistent (snd (notifications_send_POST e n ch s))"
proof (cases n)
  case None
  then show ?thesis using c by (simp add: notifications_send_POST_def)
next
  case (Some k)
  show ?thesis
  proof (cases "findInstanceById k s")
    case None
    then show ?thesis using c Some by (simp add: notifications_send_POST_def)
  next
    case inst: (Some i)
    from found_by_id[OF inst] have i: "i \<in> set (instances s)" "iid i = k" by simp_all
    have "status i \<noteq> COMPLETED \<Longrightarrow> consistent (snd (markSent e k i p s))" for p
      using markSent_consistent[OF c i(1), of e p] i(2) by simp
    then show ?thesis using c Some inst
      by (simp add: notifications_send_POST_def split: option.split)
  qed
qed

lemma sweep_consistent:
  assumes c: "consistent s"
  shows "consistent (snd (markExpiredInstances e s))"
proof -
  let ?f = "\<lambda>x. if status x \<in> set [PENDING, SENT, STARTED] \<and> expiresAt x < now e
                 then x\<lparr>status := EXPIRED\<rparr> else x"
  have "consistent (s\<lparr>instances := map ?f (instances s)\<rparr>)"
  proof (rule consistent_map[OF c])
    fix x show "iid (?f x) = iid x" by simp
  next
    fix x r assume "x \<in> set (instances s)" "r \<in> set (responses s)" "measureInstanceId r = iid x"
    then have "status x = COMPLETED" using consistentD(3)[OF c] by simp
    then show "status (?f x) = COMPLETED" by simp
  qed
  then show ?thesis by (simp add: markExpiredInstances_def updateManyInstances_def)
qed


lemma completeInTransaction_cases:
  "(\<exists>err. transaction (completeInTransaction e i as sr) s = (Inl err, s))
   \<or> (\<exists>resp. transaction (completeInTransaction e i as sr) s =
          (Inr resp,
           s\<lparr>responses := responses s @ [resp], nextId := nextId s + 1,
             instances := map (\<lambda>x. if iid x = iid i
                 then x\<lparr>status := COMPLETED, completedAt := Some (now e)\<rparr> else x) (instances s)\<rparr>)
        \<and> measureInstanceId resp = iid i \<and> (\<exists>x \<in> set (instances s). iid x = iid i))"
  by (simp add: transaction_def completeInTransaction_def createResponse_def updateInstance_def
        Let_def)

lemma submitScored_cases:
  "(fst (fst (submitScored e i name as sr ip ua s)) = 500 \<and> snd (submitScored e i name as sr ip ua s) = s)
   \<or> (\<exists>resp. fst (submitScored e i name as sr ip ua s) = (200, SubmitSuccess)
        \<and> primary (snd (submitScored e i name as sr ip ua s)) =
           primary (s\<lparr>responses := responses s @ [resp], nextId := nextId s + 1,
             instances := map (\<lambda>x. if iid x = iid i
                 then x\<lparr>status := COMPLETED, completedAt := Some (now e)\<rparr> else x) (instances s)\<rparr>)
        \<and> measureInstanceId resp = iid i \<and> (\<exists>x \<in> set (instances s). iid x = iid i))"
proof -
  from completeInTransaction_cases[of e i as sr s]
  consider (fail) err where "transaction (completeInTransaction e i as sr) s = (Inl err, s)"
    | (ok) resp where "transaction (completeInTransaction e i as sr) s =
          (Inr resp,
           s\<lparr>responses := responses s @ [resp], nextId := nextId s + 1,
             instances := map (\<lambda>x. if iid x = iid i
                 then x\<lparr>status := COMPLETED, completedAt := Some (now e)\<rparr> else x) (instances s)\<rparr>)"
        "measureInstanceId resp = iid i" "\<exists>x \<in> set (instances s). iid x = iid i"
    by blast
  then show ?thesis
  proof cases
    case fail
    then show ?thesis by (simp add: submitScored_def)
  next
    case ok
    have "fst (submitScored e i name as sr ip ua s) = (200, SubmitSuccess)
        \<and> primary (snd (submitScored e i name as sr ip ua s)) =
           primary (s\<lparr>responses := responses s @ [resp], nextId := nextId s + 1,
             instances := map (\<lambda>x. if iid x = iid i
                 then x\<lparr>status := COMPLETED, completedAt := Some (now e)\<rparr> else x) (instances s)\<rparr>)"
      using ok(1) by (simp add: submitScored_def split_beta sum.case_eq_if)
    then show ?thesis using ok(2,3) by blast
  qed
qed

lemma POST_cases:
  "(fst (fst (questionnaire_POST e tok body ip ua s)) \<noteq> 200 \<and> snd (questionnaire_POST e tok body ip ua s) = s)
   \<or> (\<exists>i resp. findInstanceByToken tok s = Some i
        \<and> fst (questionnaire_POST e tok body ip ua s) = (200, SubmitSuccess)
        \<and> primary (snd (questionnaire_POST e tok body ip ua s)) =
           primary (s\<lparr>responses := responses s @ [resp], nextId := nextId s + 1,
             instances := map (\<lambda>x. if iid x = iid i
                 then x\<lparr>status := COMPLETED, completedAt := Some (now e)\<rparr> else x) (instances s)\<rparr>)
        \<and> measureInstanceId resp = iid i)"
proof (cases "findInstanceByToken tok s")
  case None
  then show ?thesis by (simp add: questionnaire_POST_def)
next
  case (Some i)
  have sub: "\<And>name as sr. (fst (fst (submitScored e i name as sr ip ua s)) \<noteq> 200 \<and> snd (submitScored e i name as sr ip ua s) = s)
   \<or> (\<exists>resp. fst (submitScored e i name as sr ip ua s) = (200, SubmitSuccess)
        \<and> primary (snd (submitScored e i name as sr ip ua s)) =
           primary (s\<lparr>responses := responses s @ [resp], nextId := nextId s + 1,
             instances := map (\<lambda>x. if iid x = iid i
                 then x\<lparr>status := COMPLETED, completedAt := Some (now e)\<rparr> else x) (instances s)\<rparr>)
        \<and> measureInstanceId resp = iid i)"
    subgoal for name as sr using submitScored_cases[of e i name as sr ip ua s] by auto
    done
  show ?thesis using Some sub
    by (simp add: questionnaire_POST_def split: option.split sum.split)
qed


lemma consistent_complete:
  assumes c: "consistent s" and i: "i \<in> set (instances s)" and m: "measureInstanceId resp = iid i"
  shows "consistent (s\<lparr>responses := responses s @ [resp], nextId := nextId s + 1,
             instances := map (\<lambda>x. if iid x = iid i
                 then x\<lparr>status := COMPLETED, completedAt := t\<rparr> else x) (instances s)\<rparr>)"
    (is "consistent ?s'")
proof (rule consistentI)
  let ?f = "\<lambda>x. if iid x = iid i then x\<lparr>status := COMPLETED, completedAt := t\<rparr> else x"
  have id: "iid (?f x) = iid x" for x by simp
  have inst: "instances ?s' = map ?f (instances s)" by simp
  have resp: "responses ?s' = responses s @ [resp]" by simp
  {
    fix y assume "y \<in> set (instances ?s')"
    then obtain x where "x \<in> set (instances s)" "y = ?f x" unfolding inst by auto
    then show "iid y < nextId ?s'" using consistentD(1)[OF c, of x] id[of x] by simp
  next
    fix r assume "r \<in> set (responses ?s')"
    then have "r \<in> set (responses s) \<or> r = resp" unfolding resp by auto
    then obtain x where x: "x \<in> set (instances s)" "iid x = measureInstanceId r"
      using consistentD(2)[OF c] i m by metis
    then have "?f x \<in> set (map ?f (instances s))" "iid (?f x) = measureInstanceId r"
      using id[of x] by simp_all
    then show "\<exists>x \<in> set (instances ?s'). iid x = measureInstanceId r" unfolding inst by blast
  next
    fix r y assume r: "r \<in> set (responses ?s')" and y: "y \<in> set (instances ?s')"
      and eq: "iid y = measureInstanceId r"
    from y obtain x where x: "x \<in> set (instances s)" "y = ?f x" unfolding inst by auto
    from r have "r \<in> set (responses s) \<or> r = resp" unfolding resp by auto
    then show "status y = COMPLETED"
    proof
      assume old: "r \<in> set (responses s)"
      have "iid x = measureInstanceId r" using eq x(2) id[of x] by simp
      from consistentD(3)[OF c old x(1) this] show ?thesis using x(2) by simp
    next
      assume "r = resp"
      then have "iid x = iid i" using eq x(2) id[of x] m by simp
      then show ?thesis using x(2) by simp
    qed
  }
qed

lemma POST_consistent:
  assumes c: "consistent s"
  shows "consistent (snd (questionnaire_POST e tok body ip ua s))"
proof -
  from POST_cases[of e tok body ip ua s]
  consider "snd (questionnaire_POST e tok body ip ua s) = s"
    | i resp where "findInstanceByToken tok s = Some i"
        "primary (snd (questionnaire_POST e tok body ip ua s)) =
           primary (s\<lparr>responses := responses s @ [resp], nextId := nextId s + 1,
             instances := map (\<lambda>x. if iid x = iid i
                 then x\<lparr>status := COMPLETED, completedAt := Some (now e)\<rparr> else x) (instances s)\<rparr>)"
        "measureInstanceId resp = iid i"
    by blast
  then show ?thesis
  proof cases
    case 1
    then show ?thesis using c by simp
  next
    case 2
    from found_by_token[OF 2(1)] have "i \<in> set (instances s)" by simp
    from consistent_complete[OF c this 2(3)] consistent_primary[OF 2(2)] show ?thesis by simp
  qed
qed

section \<open>What the generator appends\<close>

lemma upt_shift: "[n ..< n + Suc k] = n # [Suc n ..< Suc n + k]"
  by (simp del: upt_Suc add: upt_conv_Cons)

lemma createAll_result:
  "createAll p a due ex ms s = (created, s') \<Longrightarrow>
     s' = s\<lparr>instances := instances s @ created, nextId := nextId s + length ms\<rparr>
     \<and> map measureId created = map mid ms
     \<and> map iid created = [nextId s ..< nextId s + length ms]
     \<and> (\<forall>i \<in> set created. patientId i = p \<and> appointmentId i = a \<and> dueDate i = due
            \<and> expiresAt i = ex \<and> status i = PENDING \<and> token i = iid i
            \<and> sentAt i = None \<and> startedAt i = None \<and> completedAt i = None)"
proof (induction ms arbitrary: s created s')
  case Nil
  then show ?case by simp
next
  case (Cons m ms)
  obtain i s1 where c1: "createInstance p (mid m) a due ex PENDING s = (i, s1)" by fastforce
  obtain rest s2 where c2: "createAll p a due ex ms s1 = (rest, s2)" by fastforce
  from Cons.prems c1 c2 have res: "created = i # rest" "s' = s2" by simp_all
  from c1 have i: "i = \<lparr>iid = nextId s, token = nextId s, patientId = p, measureId = mid m,
               appointmentId = a, dueDate = due, expiresAt = ex, status = PENDING,
               sentAt = None, startedAt = None, completedAt = None\<rparr>"
    and s1: "s1 = s\<lparr>instances := instances s @ [i], nextId := nextId s + 1\<rparr>"
    by (auto simp: createInstance_def Let_def)
  from Cons.IH[OF c2] have ih:
    "s2 = s1\<lparr>instances := instances s1 @ rest, nextId := nextId s1 + length ms\<rparr>"
    "map measureId rest = map mid ms"
    "map iid rest = [nextId s1 ..< nextId s1 + length ms]"
    "\<forall>i \<in> set rest. patientId i = p \<and> appointmentId i = a \<and> dueDate i = due
            \<and> expiresAt i = ex \<and> status i = PENDING \<and> token i = iid i
            \<and> sentAt i = None \<and> startedAt i = None \<and> completedAt i = None"
    by simp_all
  have 1: "s' = s\<lparr>instances := instances s @ created, nextId := nextId s + length (m # ms)\<rparr>"
    using res ih(1) s1 by simp
  have 2: "map measureId created = map mid (m # ms)" using res ih(2) i by simp
  have 3: "map iid created = [nextId s ..< nextId s + length (m # ms)]"
  proof -
    have u: "[nextId s ..< nextId s + length (m # ms)]
        = nextId s # [nextId s + 1 ..< nextId s + 1 + length ms]"
      using upt_shift[of "nextId s" "length ms"] by simp
    have "nextId s1 = nextId s + 1" using s1 by simp
    with ih(3) have "map iid rest = [nextId s + 1 ..< nextId s + 1 + length ms]" by simp
    moreover have "iid i = nextId s" using i by simp
    ultimately show ?thesis unfolding u res(1) by simp
  qed
  have 4: "\<forall>i \<in> set created. patientId i = p \<and> appointmentId i = a \<and> dueDate i = due
            \<and> expiresAt i = ex \<and> status i = PENDING \<and> token i = iid i
            \<and> sentAt i = None \<and> startedAt i = None \<and> completedAt i = None"
    using res ih(4) i by simp
  from 1 2 3 4 show ?case by blast
qed


lemma getDefaultPolicy_eq:
  "getDefaultPolicy s = (activePolicy s, s\<lparr>policy := Some (activePolicy s)\<rparr>)"
  by (cases "policy s") (simp_all add: getDefaultPolicy_def activePolicy_def)

lemma createMeasureInstances_result:
  "\<exists>created s'. createMeasureInstances e opts s = (Inr created, s')
     \<and> primary s' = primary (s\<lparr>policy := Some (activePolicy s),
            instances := instances s @ created,
            nextId := nextId s + length (requiredMeasures s)\<rparr>)
     \<and> map measureId created = map mid (requiredMeasures s)
     \<and> map iid created = [nextId s ..< nextId s + length (requiredMeasures s)]
     \<and> (\<forall>i \<in> set created. patientId i = o_patientId opts
            \<and> appointmentId i = o_appointmentId opts
            \<and> dueDate i = effectiveDueDate e opts
            \<and> expiresAt i = addDays e (effectiveDueDate e opts) (expirationDays (activePolicy s))
            \<and> status i = PENDING \<and> token i = iid i
            \<and> sentAt i = None \<and> startedAt i = None \<and> completedAt i = None)"
proof -
  let ?s1 = "s\<lparr>policy := Some (activePolicy s)\<rparr>"
  let ?due = "effectiveDueDate e opts"
  let ?ex = "addDays e ?due (expirationDays (activePolicy s))"
  obtain created s2 where ca: "createAll (o_patientId opts) (o_appointmentId opts) ?due ?ex
      (requiredMeasures s) ?s1 = (created, s2)" by fastforce
  obtain s3 where au: "auditCreated e (o_userId opts) (o_patientId opts) (o_appointmentId opts)
                       ?due created s2 = (Inr (), s3)" and p3: "primary s3 = primary s2"
    using auditCreated_returns by blast
  have cmi: "createMeasureInstances e opts s = (Inr created, s3)"
    using ca au
    by (simp add: createMeasureInstances_def getDefaultPolicy_eq Let_def requiredMeasures_def
          effectiveDueDate_def)
  from createAll_result[OF ca]
  have s2: "s2 = ?s1\<lparr>instances := instances ?s1 @ created,
                       nextId := nextId ?s1 + length (requiredMeasures s)\<rparr>"
    and rest: "map measureId created = map mid (requiredMeasures s)"
      "map iid created = [nextId ?s1 ..< nextId ?s1 + length (requiredMeasures s)]"
      "\<forall>i \<in> set created. patientId i = o_patientId opts
            \<and> appointmentId i = o_appointmentId opts
            \<and> dueDate i = ?due \<and> expiresAt i = ?ex
            \<and> status i = PENDING \<and> token i = iid i
            \<and> sentAt i = None \<and> startedAt i = None \<and> completedAt i = None"
    by blast+
  have "primary s3 = primary (s\<lparr>policy := Some (activePolicy s),
            instances := instances s @ created,
            nextId := nextId s + length (requiredMeasures s)\<rparr>)"
    using p3 s2 by simp
  then show ?thesis using cmi rest by simp
qed

lemma consistent_append:
  assumes c: "consistent s"
    and ids: "\<And>i. i \<in> set created \<Longrightarrow> nextId s \<le> iid i \<and> iid i < n"
    and n: "nextId s \<le> n"
  shows "consistent (s\<lparr>policy := pol, instances := instances s @ created, nextId := n\<rparr>)"
    (is "consistent ?s'")
proof (rule consistentI)
  fix y assume "y \<in> set (instances ?s')"
  then have "y \<in> set (instances s) \<or> y \<in> set created" by auto
  then show "iid y < nextId ?s'" using consistentD(1)[OF c, of y] ids[of y] n by auto
next
  fix r assume "r \<in> set (responses ?s')"
  then have "r \<in> set (responses s)" by simp
  from consistentD(2)[OF c this] show "\<exists>x \<in> set (instances ?s'). iid x = measureInstanceId r"
    by auto
next
  fix r y assume "r \<in> set (responses ?s')" and y: "y \<in> set (instances ?s')"
    and eq: "iid y = measureInstanceId r"
  then have r: "r \<in> set (responses s)" by simp
  from consistentD(2)[OF c r] obtain x where x: "x \<in> set (instances s)" "iid x = measureInstanceId r"
    by blast
  with consistentD(1)[OF c x(1)] have "iid y < nextId s" using eq by simp
  with ids[of y] y have "y \<in> set (instances s)" by auto
  from consistentD(3)[OF c r this eq] show "status y = COMPLETED" .
qed

lemma createMeasureInstances_consistent:
  assumes c: "consistent s"
  shows "consistent (snd (createMeasureInstances e opts s))"
proof -
  from createMeasureInstances_result[of e opts s] obtain created s' where
    r: "createMeasureInstances e opts s = (Inr created, s')"
    and p: "primary s' = primary (s\<lparr>policy := Some (activePolicy s),
            instances := instances s @ created,
            nextId := nextId s + length (requiredMeasures s)\<rparr>)"
    and ids: "map iid created = [nextId s ..< nextId s + length (requiredMeasures s)]"
    by blast
  have "nextId s \<le> iid i \<and> iid i < nextId s + length (requiredMeasures s)"
    if "i \<in> set created" for i
  proof -
    from that have "iid i \<in> set (map iid created)" by simp
    then show ?thesis unfolding ids by simp
  qed
  from consistent_append[OF c this] consistent_primary[OF p] show ?thesis using r by simp
qed

lemma generateFor_consistent:
  "consistent s \<Longrightarrow> consistent (snd (generateFor e as s))"
proof (induction as arbitrary: s)
  case Nil
  then show ?case by simp
next
  case (Cons a rest)
  let ?opts = "\<lparr>o_patientId = a_patientId a, o_appointmentId = Some (aid a),
         o_dueDate = Some (scheduledAt a), o_userId = None\<rparr>"
  obtain r1 s1 where c1: "createMeasureInstances e ?opts s = (r1, s1)" by fastforce
  with createMeasureInstances_consistent[OF Cons.prems, of e ?opts] have cs1: "consistent s1" by simp
  obtain r2 s2 where c2: "generateFor e rest s1 = (r2, s2)" by fastforce
  with Cons.IH[OF cs1] have cs2: "consistent s2" by simp
  show ?case using c1 c2 cs1 cs2 by (simp split: sum.split)
qed

lemma handle_consistent: "consistent s \<Longrightarrow> consistent (handle e r s)"
  by (cases r)
    (simp_all add: GET_consistent POST_consistent send_consistent sweep_consistent
       createMeasureInstances_consistent generateFor_consistent generateUpcomingInstances_def)

lemma run_consistent: "consistent s \<Longrightarrow> consistent (run reqs s)"
  by (induction reqs arbitrary: s) (auto simp: handle_consistent)


section \<open>Atomic completion\<close>

text \<open>
  Claim C5. Whatever writes fail, \<^verbatim>\<open>POST\<close> ends in one of two ways: it answers with a
  status other than 200 and the database is exactly as before (no response, no status
  change: a failure inside the transaction rolls both writes back); or it answers 200,
  exactly one response for the instance has been appended and the instance's row has
  status \<open>COMPLETED\<close> and its \<open>completedAt\<close> set. Moreover, in every sequential
  execution of requests (open, submit, send, sweep, generate, generate upcoming), from a
  database in which every response belongs to a stored, \<open>COMPLETED\<close> instance (and ids
  are fresh), every response still belongs to a stored, \<open>COMPLETED\<close> instance at the end.
\<close>

theorem completion_atomic:
  "((fst (fst (questionnaire_POST e tok body ip ua s)) \<noteq> 200
      \<and> snd (questionnaire_POST e tok body ip ua s) = s)
    \<or> (\<exists>i resp. findInstanceByToken tok s = Some i
          \<and> fst (questionnaire_POST e tok body ip ua s) = (200, SubmitSuccess)
          \<and> responses (snd (questionnaire_POST e tok body ip ua s)) = responses s @ [resp]
          \<and> measureInstanceId resp = iid i
          \<and> instances (snd (questionnaire_POST e tok body ip ua s)) =
              map (\<lambda>x. if iid x = iid i
                        then x\<lparr>status := COMPLETED, completedAt := Some (now e)\<rparr> else x)
                  (instances s)))
   \<and> (consistent s \<longrightarrow> consistent (run reqs s))"
proof -
  from POST_cases[of e tok body ip ua s]
  consider "fst (fst (questionnaire_POST e tok body ip ua s)) \<noteq> 200"
      "snd (questionnaire_POST e tok body ip ua s) = s"
    | i resp where "findInstanceByToken tok s = Some i"
        "fst (questionnaire_POST e tok body ip ua s) = (200, SubmitSuccess)"
        "primary (snd (questionnaire_POST e tok body ip ua s)) =
           primary (s\<lparr>responses := responses s @ [resp], nextId := nextId s + 1,
             instances := map (\<lambda>x. if iid x = iid i
                 then x\<lparr>status := COMPLETED, completedAt := Some (now e)\<rparr> else x) (instances s)\<rparr>)"
        "measureInstanceId resp = iid i"
    by blast
  then have post: "(fst (fst (questionnaire_POST e tok body ip ua s)) \<noteq> 200
      \<and> snd (questionnaire_POST e tok body ip ua s) = s)
    \<or> (\<exists>i resp. findInstanceByToken tok s = Some i
          \<and> fst (questionnaire_POST e tok body ip ua s) = (200, SubmitSuccess)
          \<and> responses (snd (questionnaire_POST e tok body ip ua s)) = responses s @ [resp]
          \<and> measureInstanceId resp = iid i
          \<and> instances (snd (questionnaire_POST e tok body ip ua s)) =
              map (\<lambda>x. if iid x = iid i
                        then x\<lparr>status := COMPLETED, completedAt := Some (now e)\<rparr> else x)
                  (instances s))"
  proof cases
    case 1
    then show ?thesis by blast
  next
    case 2
    from primary_eqD[OF 2(3)] have
      "responses (snd (questionnaire_POST e tok body ip ua s)) = responses s @ [resp]"
      "instances (snd (questionnaire_POST e tok body ip ua s)) =
              map (\<lambda>x. if iid x = iid i
                        then x\<lparr>status := COMPLETED, completedAt := Some (now e)\<rparr> else x)
                  (instances s)"
      by simp_all
    with 2(1,2,4) show ?thesis by blast
  qed
  show ?thesis using post run_consistent by blast
qed

theorem completion_atomic_witness:
  "consistent (db_of [inst 1 STARTED 60, inst 2 PENDING 60])
   \<and> consistent (run [(env_at 50, Submit 1 (Some [answer 1 2]) None None),
                      ((env_at 50)\<lparr>instanceUpdateFault := True\<rparr>,
                         Submit 2 (Some [answer 1 2]) None None),
                      (env_at 70, Sweep)]
                 (db_of [inst 1 STARTED 60, inst 2 PENDING 60]))
   \<and> map status (instances (run [(env_at 50, Submit 1 (Some [answer 1 2]) None None),
                      ((env_at 50)\<lparr>instanceUpdateFault := True\<rparr>,
                         Submit 2 (Some [answer 1 2]) None None),
                      (env_at 70, Sweep)]
                 (db_of [inst 1 STARTED 60, inst 2 PENDING 60]))) = [COMPLETED, EXPIRED]
   \<and> map measureInstanceId (responses (run [(env_at 50, Submit 1 (Some [answer 1 2]) None None),
                      ((env_at 50)\<lparr>instanceUpdateFault := True\<rparr>,
                         Submit 2 (Some [answer 1 2]) None None),
                      (env_at 70, Sweep)]
                 (db_of [inst 1 STARTED 60, inst 2 PENDING 60]))) = [1]"
proof -
  have c: "consistent (db_of [inst 1 STARTED 60, inst 2 PENDING 60])"
    by (simp add: consistent_def idsFresh_def responsesCompleted_def db_of_def inst_def)
  have r: "map status (instances (run [(env_at 50, Submit 1 (Some [answer 1 2]) None None),
                      ((env_at 50)\<lparr>instanceUpdateFault := True\<rparr>,
                         Submit 2 (Some [answer 1 2]) None None),
                      (env_at 70, Sweep)]
                 (db_of [inst 1 STARTED 60, inst 2 PENDING 60]))) = [COMPLETED, EXPIRED]
   \<and> map measureInstanceId (responses (run [(env_at 50, Submit 1 (Some [answer 1 2]) None None),
                      ((env_at 50)\<lparr>instanceUpdateFault := True\<rparr>,
                         Submit 2 (Some [answer 1 2]) None None),
                      (env_at 70, Sweep)]
                 (db_of [inst 1 STARTED 60, inst 2 PENDING 60]))) = [1]"
    by (simp add: questionnaire_POST_def markExpiredInstances_def updateManyInstances_def
          example_defs lookup_defs scoring_defs write_defs)
  from completion_atomic[of "env_at 50" 1 None None None
      "db_of [inst 1 STARTED 60, inst 2 PENDING 60]"
      "[(env_at 50, Submit 1 (Some [answer 1 2]) None None),
                      ((env_at 50)\<lparr>instanceUpdateFault := True\<rparr>,
                         Submit 2 (Some [answer 1 2]) None None),
                      (env_at 70, Sweep)]"] c r
  show ?thesis by blast
qed

section \<open>Due date and expiry of generated instances\<close>



section \<open>Compliance rate\<close>



lemma expo_le:
  assumes "0 < x"
  shows "2 powi (expo x) \<le> x"
proof -
  obtain p q where pq: "quotient_of x = (p, q)" by fastforce
  then have q: "0 < q" and x: "x = of_int p / of_int q"
    using quotient_of_denom_pos quotient_of_div by blast+
  from assms x q have p: "0 < p" by (simp add: zero_less_divide_iff)
  let ?e0 = "bitlen p - bitlen q"
  show ?thesis
  proof (cases "2 powi ?e0 \<le> x")
    case True
    then show ?thesis using pq by (simp add: expo_def)
  next
    case False
    then have e: "expo x = ?e0 - 1" using pq by (simp add: expo_def)
    from bitlen_bounds[OF p] have lp: "(2::int) ^ nat (bitlen p - 1) \<le> p" by simp
    from bitlen_bounds[OF q] have uq: "q < (2::int) ^ nat (bitlen q)" by simp
    have bp: "1 \<le> bitlen p" using p bitlen_eq_zero_iff[of p] bitlen_nonneg[of p] by linarith
    have bq: "0 \<le> bitlen q" by (rule bitlen_nonneg)
    have lp': "(2::rat) powi (bitlen p - 1) \<le> of_int p"
    proof -
      have "(2::rat) powi (bitlen p - 1) = of_int (2 ^ nat (bitlen p - 1))"
        using bp by (simp add: power_int_def)
      also have "\<dots> \<le> of_int p" using lp by (simp only: of_int_le_iff)
      finally show ?thesis .
    qed
    have uq': "of_int q \<le> (2::rat) powi (bitlen q)"
    proof -
      have "(of_int q :: rat) \<le> of_int (2 ^ nat (bitlen q))" using uq by (simp only: of_int_le_iff less_imp_le)
      also have "\<dots> = (2::rat) powi (bitlen q)" using bq by (simp add: power_int_def)
      finally show ?thesis .
    qed
    have "(2::rat) powi (?e0 - 1) = 2 powi (bitlen p - 1) / 2 powi (bitlen q)"
      by (simp add: power_int_diff)
    also have "\<dots> \<le> of_int p / of_int q"
      using lp' uq' q p by (intro frac_le) simp_all
    finally show ?thesis using e x by simp
  qed
qed




lemma expo_less:
  assumes "0 < x"
  shows "x < 2 powi (expo x + 1)"
proof -
  obtain p q where pq: "quotient_of x = (p, q)" by fastforce
  then have q: "0 < q" and x: "x = of_int p / of_int q"
    using quotient_of_denom_pos quotient_of_div by blast+
  from assms x q have p: "0 < p" by (simp add: zero_less_divide_iff)
  let ?e0 = "bitlen p - bitlen q"
  show ?thesis
  proof (cases "2 powi ?e0 \<le> x")
    case False
    then show ?thesis using pq by (simp add: expo_def)
  next
    case True
    then have e: "expo x = ?e0" using pq by (simp add: expo_def)
    from bitlen_bounds[OF p] have up: "p < (2::int) ^ nat (bitlen p)" by simp
    from bitlen_bounds[OF q] have lq: "(2::int) ^ nat (bitlen q - 1) \<le> q" by simp
    have bp: "0 \<le> bitlen p" by (rule bitlen_nonneg)
    have bq: "1 \<le> bitlen q" using q bitlen_eq_zero_iff[of q] bitlen_nonneg[of q] by linarith
    have up': "of_int p < (2::rat) powi (bitlen p)"
    proof -
      have "(of_int p :: rat) < of_int (2 ^ nat (bitlen p))" using up by (simp only: of_int_less_iff)
      also have "\<dots> = (2::rat) powi (bitlen p)" using bp by (simp add: power_int_def)
      finally show ?thesis .
    qed
    have lq': "(2::rat) powi (bitlen q - 1) \<le> of_int q"
    proof -
      have "(2::rat) powi (bitlen q - 1) = of_int (2 ^ nat (bitlen q - 1))"
        using bq by (simp add: power_int_def)
      also have "\<dots> \<le> of_int q" using lq by (simp only: of_int_le_iff)
      finally show ?thesis .
    qed
    have "of_int p / of_int q < (2::rat) powi (bitlen p) / 2 powi (bitlen q - 1)"
      using up' lq' q p by (intro frac_less) simp_all
    also have "\<dots> = 2 powi (?e0 + 1)"
      by (simp add: power_int_diff power_int_add)
    finally show ?thesis using e x by simp
  qed
qed

text \<open>The scaled value rounded by \<^verbatim>\<open>roundToDouble\<close> lies between \<open>2^52\<close> and \<open>2^53\<close>: the
  result has 53 significant bits.\<close>

lemma significand_range:
  assumes "0 < x"
  shows "2 ^ 52 \<le> x / 2 powi (expo x - 52) \<and> x / 2 powi (expo x - 52) < 2 ^ 53"
proof -
  define y where "y = x / 2 powi (expo x)"
  have u: "(2::rat) powi (expo x - 52) = 2 powi (expo x) / 2 ^ 52" by (simp add: power_int_diff)
  have p: "(0::rat) < 2 powi (expo x)" by simp
  have 1: "y < 2"
    unfolding y_def using expo_less[OF assms] p by (simp add: power_int_add divide_less_eq)
  have 2: "1 \<le> y"
    unfolding y_def using expo_le[OF assms] p by (simp add: le_divide_eq)
  have "x / 2 powi (expo x - 52) = y * 2 ^ 52" unfolding u y_def by simp
  moreover have "(2::rat) ^ 52 \<le> y * 2 ^ 52" using 2 by simp
  moreover have "y * 2 ^ 52 < (2::rat) ^ 53" using 1 by simp
  ultimately show ?thesis by simp
qed

text \<open>Doubles known from the standard: 0.1, 1/3, and two values that are exact.\<close>

lemma known_doubles:
  "roundToDouble (1 / 10) = 3602879701896397 / 2 ^ 55"
  "roundToDouble (1 / 3) = 6004799503160661 / 2 ^ 54"
  "roundToDouble (3 / 4) = 3 / 4"
  "roundToDouble 1000 = 1000"
  by code_simp+








text \<open>
  The count \<open>totalDue\<close> has no upper bound on \<open>dueDate\<close>: a row due after now is counted,
  so the rate is 0, not 100, when that row is the only one on or after the start of the
  period and no instance is due in the window.
\<close>

lemma future_due_counted:
  "dueInWindow (env_at 100) None 30 (db_of [(inst 1 PENDING 900)\<lparr>dueDate := 200\<rparr>]) = 0
   \<and> m_totalDue (compliance_GET_metrics (env_at 100) None 30
        (db_of [(inst 1 PENDING 900)\<lparr>dueDate := 200\<rparr>])) = 1
   \<and> m_complianceRate (compliance_GET_metrics (env_at 100) None 30
        (db_of [(inst 1 PENDING 900)\<lparr>dueDate := 200\<rparr>])) = 0"
proof -
  have "reportedComplianceRate 1 0 = 0" by code_simp
  then show ?thesis
    by (simp add: dueInWindow_def compliance_GET_metrics_def countTotalDue_def
          countTotalCompleted_def countTotalOverdue_def patientWhere_def addDays_defs
          db_of_def inst_def env_at_def)
qed

section \<open>Idempotence of generation\<close>

lemma primary_eqI:
  "instances s = instances t \<Longrightarrow> responses s = responses t \<Longrightarrow> measures s = measures t
   \<Longrightarrow> patients s = patients t \<Longrightarrow> appointments s = appointments t \<Longrightarrow> policy s = policy t
   \<Longrightarrow> nextId s = nextId t \<Longrightarrow> primary s = primary t"
  by (cases s, cases t) (simp add: primary_def)

lemma activePolicy_stored: "policy s = Some p \<Longrightarrow> activePolicy s = p"
  by (simp add: activePolicy_def getDefaultPolicy_def)

lemma requiredMeasures_cong:
  "activePolicy s' = activePolicy s \<Longrightarrow> measures s' = measures s
    \<Longrightarrow> requiredMeasures s' = requiredMeasures s"
  by (simp add: requiredMeasures_def)

lemma createMeasureInstances_after:
  "\<exists>created s'. createMeasureInstances e opts s = (Inr created, s')
     \<and> instances s' = instances s @ created
     \<and> responses s' = responses s \<and> measures s' = measures s \<and> patients s' = patients s
     \<and> appointments s' = appointments s \<and> policy s' = Some (activePolicy s)
     \<and> nextId s' = nextId s + length (requiredMeasures s)
     \<and> activePolicy s' = activePolicy s \<and> requiredMeasures s' = requiredMeasures s
     \<and> map measureId created = map mid (requiredMeasures s)
     \<and> (\<forall>i \<in> set created. patientId i = o_patientId opts
            \<and> appointmentId i = o_appointmentId opts \<and> status i = PENDING)"
proof -
  from createMeasureInstances_result[of e opts s] obtain created s' where
    r: "createMeasureInstances e opts s = (Inr created, s')"
    and p: "primary s' = primary (s\<lparr>policy := Some (activePolicy s),
            instances := instances s @ created,
            nextId := nextId s + length (requiredMeasures s)\<rparr>)"
    and m: "map measureId created = map mid (requiredMeasures s)"
    and each: "\<forall>i \<in> set created. patientId i = o_patientId opts
            \<and> appointmentId i = o_appointmentId opts
            \<and> dueDate i = effectiveDueDate e opts
            \<and> expiresAt i = addDays e (effectiveDueDate e opts) (expirationDays (activePolicy s))
            \<and> status i = PENDING \<and> token i = iid i
            \<and> sentAt i = None \<and> startedAt i = None \<and> completedAt i = None"
    by blast
  from primary_eqD[OF p] have f: "instances s' = instances s @ created"
    "responses s' = responses s" "measures s' = measures s" "patients s' = patients s"
    "appointments s' = appointments s" "policy s' = Some (activePolicy s)"
    "nextId s' = nextId s + length (requiredMeasures s)"
    by simp_all
  have ap: "activePolicy s' = activePolicy s" using f(6) by (rule activePolicy_stored)
  have rm: "requiredMeasures s' = requiredMeasures s" using ap f(3) by (rule requiredMeasures_cong)
  from r f ap rm m each show ?thesis by blast
qed

lemma generateFor_after:
  "\<exists>r s'. generateFor e as s = (r, s')
     \<and> responses s' = responses s \<and> measures s' = measures s \<and> patients s' = patients s
     \<and> appointments s' = appointments s
     \<and> (as = [] \<longrightarrow> s' = s)
     \<and> (as \<noteq> [] \<longrightarrow> policy s' = Some (activePolicy s))
     \<and> set (instances s) \<subseteq> set (instances s')
     \<and> (requiredMeasures s \<noteq> [] \<longrightarrow>
           (\<forall>a \<in> set as. \<exists>i \<in> set (instances s'). appointmentId i = Some (aid a)))
     \<and> (requiredMeasures s = [] \<longrightarrow> instances s' = instances s \<and> nextId s' = nextId s)"
proof (induction as arbitrary: s)
  case Nil
  then show ?case by simp
next
  case (Cons a rest)
  let ?opts = "\<lparr>o_patientId = a_patientId a, o_appointmentId = Some (aid a),
         o_dueDate = Some (scheduledAt a), o_userId = None\<rparr>"
  from createMeasureInstances_after[of e ?opts s] obtain created s1 where
    c: "createMeasureInstances e ?opts s = (Inr created, s1)"
    and f: "instances s1 = instances s @ created"
     "responses s1 = responses s" "measures s1 = measures s" "patients s1 = patients s"
     "appointments s1 = appointments s" "policy s1 = Some (activePolicy s)"
     "nextId s1 = nextId s + length (requiredMeasures s)"
     "activePolicy s1 = activePolicy s" "requiredMeasures s1 = requiredMeasures s"
     "map measureId created = map mid (requiredMeasures s)"
    and each: "\<forall>i \<in> set created. patientId i = o_patientId ?opts
            \<and> appointmentId i = o_appointmentId ?opts \<and> status i = PENDING"
    by blast
  from Cons.IH[of s1] obtain r2 s2 where
    g: "generateFor e rest s1 = (r2, s2)"
    and h: "responses s2 = responses s1" "measures s2 = measures s1" "patients s2 = patients s1"
     "appointments s2 = appointments s1"
     "rest = [] \<longrightarrow> s2 = s1"
     "rest \<noteq> [] \<longrightarrow> policy s2 = Some (activePolicy s1)"
     "set (instances s1) \<subseteq> set (instances s2)"
     "requiredMeasures s1 \<noteq> [] \<longrightarrow>
           (\<forall>a \<in> set rest. \<exists>i \<in> set (instances s2). appointmentId i = Some (aid a))"
     "requiredMeasures s1 = [] \<longrightarrow> instances s2 = instances s1 \<and> nextId s2 = nextId s1"
    by blast
  obtain r where res: "generateFor e (a # rest) s = (r, s2)"
    using c g by (cases r2) simp_all
  have pol: "policy s2 = Some (activePolicy s)"
    using h(5,6) f(6,8) by (cases "rest = []") simp_all
  have sub: "set (instances s) \<subseteq> set (instances s2)" using h(7) f(1) by auto
  have cover: "\<forall>b \<in> set (a # rest). \<exists>i \<in> set (instances s2). appointmentId i = Some (aid b)"
    if ne: "requiredMeasures s \<noteq> []"
  proof -
    from ne f(10) have "created \<noteq> []" by (metis map_is_Nil_conv)
    then obtain i where i: "i \<in> set created" by (cases created) auto
    with each have "appointmentId i = Some (aid a)" by simp
    moreover have "i \<in> set (instances s2)" using i f(1) h(7) by auto
    ultimately have "\<exists>i \<in> set (instances s2). appointmentId i = Some (aid a)" by blast
    then show ?thesis using h(8) ne f(9) by simp
  qed
  have empty: "instances s2 = instances s \<and> nextId s2 = nextId s" if e: "requiredMeasures s = []"
  proof -
    from e f(10) have "created = []" by simp
    then show ?thesis using h(9) f(1,7,9) e by simp
  qed
  show ?case using res h(1-4) f(2-5) pol sub cover empty by auto
qed


lemma upcomingAppointments_cong:
  "instances s' = instances s \<Longrightarrow> appointments s' = appointments s
    \<Longrightarrow> upcomingAppointments e d s' = upcomingAppointments e d s"
  by (simp add: upcomingAppointments_def)

lemma generateUpcoming_idempotent:
  "primary (snd (generateUpcomingInstances e d (snd (generateUpcomingInstances e d s))))
     = primary (snd (generateUpcomingInstances e d s))"
proof -
  let ?as = "upcomingAppointments e d s"
  from generateFor_after[of e ?as s] obtain r1 s1 where
    g1: "generateFor e ?as s = (r1, s1)"
    and h: "responses s1 = responses s" "measures s1 = measures s" "patients s1 = patients s"
     "appointments s1 = appointments s"
     "?as = [] \<longrightarrow> s1 = s"
     "?as \<noteq> [] \<longrightarrow> policy s1 = Some (activePolicy s)"
     "set (instances s) \<subseteq> set (instances s1)"
     "requiredMeasures s \<noteq> [] \<longrightarrow>
           (\<forall>a \<in> set ?as. \<exists>i \<in> set (instances s1). appointmentId i = Some (aid a))"
     "requiredMeasures s = [] \<longrightarrow> instances s1 = instances s \<and> nextId s1 = nextId s"
    by blast
  have first: "snd (generateUpcomingInstances e d s) = s1"
    using g1 by (simp add: generateUpcomingInstances_def)
  have "primary (snd (generateUpcomingInstances e d s1)) = primary s1"
  proof (cases "?as = []")
    case True
    with h(5) have "s1 = s" by simp
    then show ?thesis using True g1 by (simp add: generateUpcomingInstances_def)
  next
    case False
    with h(6) have pol: "policy s1 = Some (activePolicy s)" by simp
    then have ap: "activePolicy s1 = activePolicy s" by (rule activePolicy_stored)
    have rm: "requiredMeasures s1 = requiredMeasures s" using ap h(2) by (rule requiredMeasures_cong)
    show ?thesis
    proof (cases "requiredMeasures s = []")
      case True
      with h(9) have same: "instances s1 = instances s" "nextId s1 = nextId s" by simp_all
      have as: "upcomingAppointments e d s1 = ?as"
        using same(1) h(4) by (rule upcomingAppointments_cong)
      from generateFor_after[of e ?as s1] obtain r2 s2 where
        g2: "generateFor e ?as s1 = (r2, s2)"
        and k: "responses s2 = responses s1" "measures s2 = measures s1" "patients s2 = patients s1"
          "appointments s2 = appointments s1"
          "?as \<noteq> [] \<longrightarrow> policy s2 = Some (activePolicy s1)"
          "requiredMeasures s1 = [] \<longrightarrow> instances s2 = instances s1 \<and> nextId s2 = nextId s1"
        by blast
      have "primary s2 = primary s1"
        using k False True rm pol ap by (intro primary_eqI) simp_all
      then show ?thesis using g2 as by (simp add: generateUpcomingInstances_def)
    next
      case ne: False
      have "upcomingAppointments e d s1 = []"
      proof -
        have "\<not> (now e \<le> scheduledAt a \<and> scheduledAt a \<le> addDays e (now e) d
               \<and> \<not> isCancelled a
               \<and> \<not> (\<exists>i \<in> set (instances s1). appointmentId i = Some (aid a)))"
          if a: "a \<in> set (appointments s)" for a
        proof (cases "a \<in> set ?as")
          case True
          with h(8) ne show ?thesis by blast
        next
          case False
          with a have "\<not> (now e \<le> scheduledAt a \<and> scheduledAt a \<le> addDays e (now e) d
               \<and> \<not> isCancelled a
               \<and> \<not> (\<exists>i \<in> set (instances s). appointmentId i = Some (aid a)))"
            by (simp add: upcomingAppointments_def)
          then show ?thesis using h(7) by blast
        qed
        then show ?thesis unfolding upcomingAppointments_def h(4) by (simp add: filter_empty_conv)
      qed
      then show ?thesis by (simp add: generateUpcomingInstances_def)
    qed
  qed
  then show ?thesis using first by simp
qed

text \<open>
  Claim C2, as the code has it. \<^verbatim>\<open>createMeasureInstances\<close> does not look at the instances
  already stored: each call appends one new \<open>PENDING\<close> instance for each measure found for
  the policy's names, so a second call with the same patient and encounter appends the
  same measures again. Idempotence per encounter is what the batch generator has:
  \<^verbatim>\<open>generateUpcomingInstances\<close> selects only appointments with no instance, and running it
  a second time at the same clock leaves every table other than the audit stream as the
  first run left it.
\<close>

theorem generation_repeats_batch_idempotent:
  "(\<exists>c1 s1 c2 s2. createMeasureInstances e opts s = (Inr c1, s1)
       \<and> createMeasureInstances e' opts s1 = (Inr c2, s2)
       \<and> instances s1 = instances s @ c1 \<and> instances s2 = instances s @ c1 @ c2
       \<and> map measureId c1 = map mid (requiredMeasures s)
       \<and> map measureId c2 = map mid (requiredMeasures s)
       \<and> (\<forall>i \<in> set (c1 @ c2). patientId i = o_patientId opts
              \<and> appointmentId i = o_appointmentId opts \<and> status i = PENDING))
   \<and> primary (snd (generateUpcomingInstances e d (snd (generateUpcomingInstances e d s))))
       = primary (snd (generateUpcomingInstances e d s))"
proof -
  from createMeasureInstances_after[of e opts s] obtain c1 s1 where
    1: "createMeasureInstances e opts s = (Inr c1, s1)"
    "instances s1 = instances s @ c1" "requiredMeasures s1 = requiredMeasures s"
    "map measureId c1 = map mid (requiredMeasures s)"
    "\<forall>i \<in> set c1. patientId i = o_patientId opts
            \<and> appointmentId i = o_appointmentId opts \<and> status i = PENDING"
    by blast
  from createMeasureInstances_after[of e' opts s1] obtain c2 s2 where
    2: "createMeasureInstances e' opts s1 = (Inr c2, s2)"
    "instances s2 = instances s1 @ c2"
    "map measureId c2 = map mid (requiredMeasures s1)"
    "\<forall>i \<in> set c2. patientId i = o_patientId opts
            \<and> appointmentId i = o_appointmentId opts \<and> status i = PENDING"
    by blast
  have "\<forall>i \<in> set (c1 @ c2). patientId i = o_patientId opts
              \<and> appointmentId i = o_appointmentId opts \<and> status i = PENDING"
    using 1(5) 2(4) by auto
  moreover have "instances s2 = instances s @ c1 @ c2" using 1(2) 2(2) by simp
  moreover have "map measureId c2 = map mid (requiredMeasures s)" using 2(3) 1(3) by simp
  ultimately show ?thesis using 1(1,2,4) 2(1) generateUpcoming_idempotent by blast
qed


lemmas generation_defs = createMeasureInstances_def getDefaultPolicy_def defaultPolicy_def
  addDays_defs createInstance_def generateUpcomingInstances_def upcomingAppointments_def
  visit_def db_visit_def opts_visit_def

text \<open>
  Claim C2 as stated fails: for one patient and one encounter, one call leaves two
  instances (PHQ-9 and GAD-7) and two calls leave four, each measure twice.
\<close>

theorem generation_twice_duplicates:
  "map (\<lambda>i. (patientId i, measureId i, appointmentId i))
      (instances (snd (createMeasureInstances (env_at 1000) opts_visit db_visit)))
     = [(7, 1, Some 5), (7, 2, Some 5)]
   \<and> map (\<lambda>i. (patientId i, measureId i, appointmentId i))
      (instances (snd (createMeasureInstances (env_at 1000) opts_visit
          (snd (createMeasureInstances (env_at 1000) opts_visit db_visit)))))
     = [(7, 1, Some 5), (7, 2, Some 5), (7, 1, Some 5), (7, 2, Some 5)]"
  by (simp add: generation_defs example_defs write_defs)

theorem generation_repeats_batch_idempotent_witness:
  "map (\<lambda>i. (patientId i, measureId i, appointmentId i))
      (instances (snd (generateUpcomingInstances (env_at 1000) 7 db_visit)))
     = [(7, 1, Some 5), (7, 2, Some 5)]
   \<and> instances (snd (generateUpcomingInstances (env_at 1000) 7
          (snd (generateUpcomingInstances (env_at 1000) 7 db_visit))))
     = instances (snd (generateUpcomingInstances (env_at 1000) 7 db_visit))"
proof -
  have once: "map (\<lambda>i. (patientId i, measureId i, appointmentId i))
      (instances (snd (generateUpcomingInstances (env_at 1000) 7 db_visit)))
     = [(7, 1, Some 5), (7, 2, Some 5)]"
    by (simp add: generation_defs example_defs write_defs)
  from generation_repeats_batch_idempotent[of "env_at 1000" opts_visit db_visit "env_at 1000" 7]
  have "primary (snd (generateUpcomingInstances (env_at 1000) 7
          (snd (generateUpcomingInstances (env_at 1000) 7 db_visit))))
       = primary (snd (generateUpcomingInstances (env_at 1000) 7 db_visit))"
    by blast
  from primary_eqD[OF this] once show ?thesis by simp
qed

end
